theory Spec2Isabelle
  imports Complex_Main "HOL-Library.Code_Target_Numeral"
begin

section \<open>IEEE 754 binary32 arithmetic\<close>

text \<open>
  The C++ type \<^verbatim>\<open>float\<close> is modelled as IEEE 754 binary32 with the default rounding
  (to nearest, ties to even): every operation of the source is rounded to binary32 on its
  own (no extended precision, no fused multiply-add), and a decimal literal is the
  binary32 value nearest to it.
  A finite value \<open>Finite sg m e\<close> stands for \<open>(-1)^sg * m * 2^e\<close>; the binary32 values are
  those with \<open>e = -149\<close> and \<open>m < 2^23\<close> (zeros and subnormals) or
  \<open>2^23 \<le> m < 2^24\<close> and \<open>-149 \<le> e \<le> 104\<close> (normals). There are two zeros and two
  infinities; all NaNs are one value, since the source never looks at a payload.
\<close>

datatype f32 = Finite bool nat int | Infinity bool | NaN

fun is_finite :: "f32 \<Rightarrow> bool" where
  "is_finite (Finite sg m e) = True"
| "is_finite (Infinity sg) = False"
| "is_finite NaN = False"

fun is_nan :: "f32 \<Rightarrow> bool" where
  "is_nan NaN = True"
| "is_nan (Finite sg m e) = False"
| "is_nan (Infinity sg) = False"

definition pow2 :: "int \<Rightarrow> real" where
  "pow2 e = (if 0 \<le> e then 2 ^ nat e else 1 / 2 ^ nat (- e))"

text \<open>The real number a finite value stands for (0 for the others).\<close>

fun valof :: "f32 \<Rightarrow> real" where
  "valof (Finite sg m e) = (if sg then - real m else real m) * pow2 e"
| "valof (Infinity sg) = 0"
| "valof NaN = 0"

definition valid32 :: "f32 \<Rightarrow> bool" where
  "valid32 f =
     (case f of
        Finite sg m e \<Rightarrow>
          (e = - 149 \<and> m < 2 ^ 23) \<or> (2 ^ 23 \<le> m \<and> m < 2 ^ 24 \<and> - 149 \<le> e \<and> e \<le> 104)
      | Infinity sg \<Rightarrow> True
      | NaN \<Rightarrow> True)"

subsection \<open>Rounding to nearest, ties to even\<close>

text \<open>Number of binary digits of a natural number.\<close>

fun bit_length :: "nat \<Rightarrow> nat" where
  "bit_length n = (if n = 0 then 0 else Suc (bit_length (n div 2)))"

declare bit_length.simps [simp del]

text \<open>The integer nearest to \<open>n / d\<close>, the even one of two equally near.\<close>

definition round_half_even :: "nat \<Rightarrow> nat \<Rightarrow> nat" where
  "round_half_even n d =
     (let q = n div d; r = n mod d
      in if 2 * r < d then q
         else if d < 2 * r then q + 1
         else if even q then q else q + 1)"

text \<open>\<open>\<lfloor>log\<^sub>2 (n / d)\<rfloor>\<close> for positive \<open>n\<close> and \<open>d\<close>.\<close>

definition floor_log2 :: "nat \<Rightarrow> nat \<Rightarrow> int" where
  "floor_log2 n d =
     (let k = int (bit_length n) - int (bit_length d)
      in if (if 0 \<le> k then d * 2 ^ nat k \<le> n else d \<le> n * 2 ^ nat (- k))
         then k else k - 1)"

text \<open>
  Rounding \<open>n / d\<close> (both positive) to binary32 keeps 24 significant bits, so the last bit
  kept has the exponent \<open>\<lfloor>log\<^sub>2 (n / d)\<rfloor> - 23\<close>, but never one below \<open>-149\<close> (gradual
  underflow). The mantissa is \<open>n / d\<close> in units of that bit, rounded to an integer.
\<close>

definition quantum_exp :: "nat \<Rightarrow> nat \<Rightarrow> int" where
  "quantum_exp n d = max (floor_log2 n d - 23) (- 149)"

definition scaled_mantissa :: "nat \<Rightarrow> nat \<Rightarrow> nat" where
  "scaled_mantissa n d =
     (let e = quantum_exp n d
      in if 0 \<le> e then round_half_even n (d * 2 ^ nat e)
         else round_half_even (n * 2 ^ nat (- e)) d)"

text \<open>
  The binary32 value nearest to \<open>(-1)^sg * n / d\<close> (\<open>d\<close> positive). A mantissa rounded
  up to \<open>2^24\<close> is renormalised, and the result is infinity once the rounded value
  reaches \<open>2^128\<close>.
\<close>

definition round32 :: "bool \<Rightarrow> nat \<Rightarrow> nat \<Rightarrow> f32" where
  "round32 sg n d =
     (if n = 0 then Finite sg 0 (- 149)
      else
        let e = quantum_exp n d;
            m = scaled_mantissa n d;
            e' = (if m = 2 ^ 24 then e + 1 else e);
            m' = (if m = 2 ^ 24 then 2 ^ 23 else m)
        in if 104 < e' then Infinity sg else Finite sg m' e')"

text \<open>The same for \<open>(-1)^sg * (n / d) * 2^e\<close>.\<close>

definition round32_scaled :: "bool \<Rightarrow> nat \<Rightarrow> nat \<Rightarrow> int \<Rightarrow> f32" where
  "round32_scaled sg n d e =
     (if 0 \<le> e then round32 sg (n * 2 ^ nat e) d else round32 sg n (d * 2 ^ nat (- e)))"

text \<open>
  A decimal literal with the suffix \<^verbatim>\<open>f\<close>, given as the fraction \<open>n / d\<close> it
  denotes: \<^verbatim>\<open>1e-6f\<close> is \<open>lit 1 1000000\<close>, \<^verbatim>\<open>0.0f\<close> is \<open>lit 0 1\<close>.
\<close>

definition lit :: "int \<Rightarrow> nat \<Rightarrow> f32" where
  "lit n d = round32 (n < 0) (nat \<bar>n\<bar>) d"

subsection \<open>Operations\<close>

definition signed :: "bool \<Rightarrow> nat \<Rightarrow> int" where
  "signed sg m = (if sg then - int m else int m)"

fun f32_neg :: "f32 \<Rightarrow> f32" where
  "f32_neg (Finite sg m e) = Finite (\<not> sg) m e"
| "f32_neg (Infinity sg) = Infinity (\<not> sg)"
| "f32_neg NaN = NaN"

fun f32_abs :: "f32 \<Rightarrow> f32" where
  "f32_abs (Finite sg m e) = Finite False m e"
| "f32_abs (Infinity sg) = Infinity False"
| "f32_abs NaN = NaN"

fun f32_add :: "f32 \<Rightarrow> f32 \<Rightarrow> f32" where
  "f32_add NaN b = NaN"
| "f32_add (Infinity s1) NaN = NaN"
| "f32_add (Infinity s1) (Infinity s2) = (if s1 = s2 then Infinity s1 else NaN)"
| "f32_add (Infinity s1) (Finite s2 m2 e2) = Infinity s1"
| "f32_add (Finite s1 m1 e1) NaN = NaN"
| "f32_add (Finite s1 m1 e1) (Infinity s2) = Infinity s2"
| "f32_add (Finite s1 m1 e1) (Finite s2 m2 e2) =
     (let e = min e1 e2;
          v = signed s1 m1 * 2 ^ nat (e1 - e) + signed s2 m2 * 2 ^ nat (e2 - e)
      in if v = 0 then Finite (s1 \<and> s2) 0 (- 149)
         else round32_scaled (v < 0) (nat \<bar>v\<bar>) 1 e)"

definition f32_sub :: "f32 \<Rightarrow> f32 \<Rightarrow> f32" where
  "f32_sub a b = f32_add a (f32_neg b)"

fun f32_mul :: "f32 \<Rightarrow> f32 \<Rightarrow> f32" where
  "f32_mul NaN b = NaN"
| "f32_mul (Infinity s1) NaN = NaN"
| "f32_mul (Infinity s1) (Infinity s2) = Infinity (s1 \<noteq> s2)"
| "f32_mul (Infinity s1) (Finite s2 m2 e2) = (if m2 = 0 then NaN else Infinity (s1 \<noteq> s2))"
| "f32_mul (Finite s1 m1 e1) NaN = NaN"
| "f32_mul (Finite s1 m1 e1) (Infinity s2) = (if m1 = 0 then NaN else Infinity (s1 \<noteq> s2))"
| "f32_mul (Finite s1 m1 e1) (Finite s2 m2 e2) =
     round32_scaled (s1 \<noteq> s2) (m1 * m2) 1 (e1 + e2)"

fun f32_div :: "f32 \<Rightarrow> f32 \<Rightarrow> f32" where
  "f32_div NaN b = NaN"
| "f32_div (Infinity s1) NaN = NaN"
| "f32_div (Infinity s1) (Infinity s2) = NaN"
| "f32_div (Infinity s1) (Finite s2 m2 e2) = Infinity (s1 \<noteq> s2)"
| "f32_div (Finite s1 m1 e1) NaN = NaN"
| "f32_div (Finite s1 m1 e1) (Infinity s2) = Finite (s1 \<noteq> s2) 0 (- 149)"
| "f32_div (Finite s1 m1 e1) (Finite s2 m2 e2) =
     (if m2 = 0 then (if m1 = 0 then NaN else Infinity (s1 \<noteq> s2))
      else round32_scaled (s1 \<noteq> s2) m1 m2 (e1 - e2))"

subsection \<open>Comparisons\<close>

text \<open>Every comparison with a NaN is false; the two zeros are equal.\<close>

fun f32_lt :: "f32 \<Rightarrow> f32 \<Rightarrow> bool" where
  "f32_lt NaN b = False"
| "f32_lt (Infinity s1) NaN = False"
| "f32_lt (Infinity s1) (Infinity s2) = (s1 \<and> \<not> s2)"
| "f32_lt (Infinity s1) (Finite s2 m2 e2) = s1"
| "f32_lt (Finite s1 m1 e1) NaN = False"
| "f32_lt (Finite s1 m1 e1) (Infinity s2) = (\<not> s2)"
| "f32_lt (Finite s1 m1 e1) (Finite s2 m2 e2) =
     (valof (Finite s1 m1 e1) < valof (Finite s2 m2 e2))"

definition f32_gt :: "f32 \<Rightarrow> f32 \<Rightarrow> bool" where
  "f32_gt a b = f32_lt b a"

fun f32_eq :: "f32 \<Rightarrow> f32 \<Rightarrow> bool" where
  "f32_eq NaN b = False"
| "f32_eq (Infinity s1) NaN = False"
| "f32_eq (Infinity s1) (Infinity s2) = (s1 = s2)"
| "f32_eq (Infinity s1) (Finite s2 m2 e2) = False"
| "f32_eq (Finite s1 m1 e1) NaN = False"
| "f32_eq (Finite s1 m1 e1) (Infinity s2) = False"
| "f32_eq (Finite s1 m1 e1) (Finite s2 m2 e2) =
     (valof (Finite s1 m1 e1) = valof (Finite s2 m2 e2))"

definition f32_le :: "f32 \<Rightarrow> f32 \<Rightarrow> bool" where
  "f32_le a b = (f32_lt a b \<or> f32_eq a b)"

section \<open>The line equation class\<close>

text \<open>\<^verbatim>\<open>point_t\<close> and \<^verbatim>\<open>lineEq_t\<close> of lineEq.h.\<close>

record point_t =
  x :: f32
  y :: f32

record lineEq_t =
  slope :: f32
  y_intercept :: f32
  min_output :: f32
  max_output :: f32
  isVertical :: bool

text \<open>
  The member initialiser \<^verbatim>\<open>_lineEq = { 0.0f, 0.0f, 0.0f, 0.0f, false }\<close>: the state of
  a default-constructed object.
\<close>

definition lineEq_init :: lineEq_t where
  "lineEq_init =
     \<lparr>slope = lit 0 1, y_intercept = lit 0 1, min_output = lit 0 1,
      max_output = lit 0 1, isVertical = False\<rparr>"

text \<open>
  \<^verbatim>\<open>LineEq::create\<close>: the object's state is passed in and returned, each assignment of
  the source one field update.
\<close>

definition create :: "lineEq_t \<Rightarrow> point_t \<Rightarrow> point_t \<Rightarrow> f32 \<Rightarrow> f32 \<Rightarrow> lineEq_t" where
  "create s p1 p2 minOut maxOut =
     (let s1 = s\<lparr>min_output := minOut\<rparr>;
          s2 = s1\<lparr>max_output := maxOut\<rparr>;
          dx = f32_sub (x p2) (x p1);
          dy = f32_sub (y p2) (y p1)
      in if f32_lt (f32_abs dx) (lit 1 1000000)
         then let s3 = s2\<lparr>isVertical := True\<rparr>;
                  s4 = s3\<lparr>slope := lit 0 1\<rparr>
              in s4\<lparr>y_intercept := x p1\<rparr>
         else let s3 = s2\<lparr>isVertical := False\<rparr>;
                  s4 = s3\<lparr>slope := f32_div dy dx\<rparr>
              in s4\<lparr>y_intercept := f32_sub (y p1) (f32_mul (slope s4) (x p1))\<rparr>)"

text \<open>
  \<^verbatim>\<open>LineEq::evaluate\<close>: it writes no field, so only the returned value is modelled.
  The local \<^verbatim>\<open>y\<close> of the source is \<open>y0\<close>, \<open>y1\<close>, \<open>y2\<close> after each assignment.
\<close>

definition evaluate :: "lineEq_t \<Rightarrow> f32 \<Rightarrow> f32" where
  "evaluate s v =
     (let y0 = lit 0 1;
          y1 = (if \<not> isVertical s then f32_add (f32_mul (slope s) v) (y_intercept s)
                else y_intercept s);
          y2 = (if f32_lt y1 (min_output s) then min_output s
                else if f32_gt y1 (max_output s) then max_output s
                else y1)
      in y2)"

text \<open>The value of \<^verbatim>\<open>y\<close> before the output limits are applied (lines 54 to 59).\<close>

definition unclamped :: "lineEq_t \<Rightarrow> f32 \<Rightarrow> f32" where
  "unclamped s v =
     (if \<not> isVertical s then f32_add (f32_mul (slope s) v) (y_intercept s)
      else y_intercept s)"

text \<open>A sequence of \<^verbatim>\<open>create\<close> calls on one object, the first call first.\<close>

fun create_all :: "lineEq_t \<Rightarrow> (point_t \<times> point_t \<times> f32 \<times> f32) list \<Rightarrow> lineEq_t" where
  "create_all s [] = s"
| "create_all s ((p1, p2, minOut, maxOut) # cs) = create_all (create s p1 p2 minOut maxOut) cs"

section \<open>Exact operations, overflow, units in the last place\<close>

text \<open>
  An operation is exact on two arguments when its result is finite and stands for the
  real sum, difference, product or quotient of what the arguments stand for.
\<close>

definition exact_add :: "f32 \<Rightarrow> f32 \<Rightarrow> bool" where
  "exact_add a b = (is_finite (f32_add a b) \<and> valof (f32_add a b) = valof a + valof b)"

definition exact_sub :: "f32 \<Rightarrow> f32 \<Rightarrow> bool" where
  "exact_sub a b = (is_finite (f32_sub a b) \<and> valof (f32_sub a b) = valof a - valof b)"

definition exact_mul :: "f32 \<Rightarrow> f32 \<Rightarrow> bool" where
  "exact_mul a b = (is_finite (f32_mul a b) \<and> valof (f32_mul a b) = valof a * valof b)"

definition exact_div :: "f32 \<Rightarrow> f32 \<Rightarrow> bool" where
  "exact_div a b = (is_finite (f32_div a b) \<and> valof (f32_div a b) = valof a / valof b)"

text \<open>
  Every operation that \<^verbatim>\<open>create\<close> performs on the points \<open>p1\<close>, \<open>p2\<close> in its
  non-vertical branch, and that \<^verbatim>\<open>evaluate\<close> then performs at \<open>x p1\<close> and at \<open>x p2\<close>,
  is exact.
\<close>

definition rounding_free :: "point_t \<Rightarrow> point_t \<Rightarrow> bool" where
  "rounding_free p1 p2 =
     (let dx = f32_sub (x p2) (x p1);
          dy = f32_sub (y p2) (y p1);
          m = f32_div dy dx;
          b = f32_sub (y p1) (f32_mul m (x p1))
      in exact_sub (x p2) (x p1) \<and> exact_sub (y p2) (y p1) \<and> exact_div dy dx
         \<and> exact_mul m (x p1) \<and> exact_sub (y p1) (f32_mul m (x p1))
         \<and> exact_add (f32_mul m (x p1)) b
         \<and> exact_mul m (x p2) \<and> exact_add (f32_mul m (x p2)) b)"

text \<open>
  None of those operations overflows or yields a NaN: every intermediate result is finite.
\<close>

definition overflow_free :: "point_t \<Rightarrow> point_t \<Rightarrow> bool" where
  "overflow_free p1 p2 =
     (let dx = f32_sub (x p2) (x p1);
          dy = f32_sub (y p2) (y p1);
          m = f32_div dy dx;
          b = f32_sub (y p1) (f32_mul m (x p1))
      in is_finite dx \<and> is_finite dy \<and> is_finite m
         \<and> is_finite (f32_mul m (x p1)) \<and> is_finite b
         \<and> is_finite (f32_add (f32_mul m (x p1)) b)
         \<and> is_finite (f32_mul m (x p2)) \<and> is_finite (f32_add (f32_mul m (x p2)) b))"

text \<open>Half a unit in the last place of a finite value (0 for the others).\<close>

fun half_ulp :: "f32 \<Rightarrow> real" where
  "half_ulp (Finite sg m e) = pow2 e / 2"
| "half_ulp (Infinity sg) = 0"
| "half_ulp NaN = 0"

text \<open>The four stored numbers of a state are binary32 values.\<close>

definition valid_state :: "lineEq_t \<Rightarrow> bool" where
  "valid_state s =
     (valid32 (slope s) \<and> valid32 (y_intercept s)
      \<and> valid32 (min_output s) \<and> valid32 (max_output s))"

section \<open>Example configurations\<close>

text \<open>
  The configurations of the README and a few others, each the state of a
  default-constructed object after one \<^verbatim>\<open>create\<close>. \<open>sensor_scale\<close> is the 4-20 mA example
  and \<open>usage_line\<close> the usage example of the README; \<open>vertical_line\<close> has two points with
  the same x-coordinate; the x-coordinates of \<open>epsilon_line\<close> differ by \<^verbatim>\<open>1e-6f\<close>;
  \<open>overflow_line\<close> and \<open>overflow_line_wide\<close> have y-coordinates whose difference exceeds
  the largest binary32 value; in \<open>cancelling_line\<close> one y-coordinate is \<open>2^25\<close> times the
  other; \<open>steep_line\<close> has a slope near 76 and coordinates that all round;
  \<open>inverted_line\<close> has its lower limit above its upper limit.
\<close>

abbreviation sensor_scale :: lineEq_t where
  "sensor_scale \<equiv>
     create lineEq_init \<lparr>x = lit 4 1, y = lit (- 40) 1\<rparr> \<lparr>x = lit 20 1, y = lit 85 1\<rparr>
       (lit (- 40) 1) (lit 85 1)"

abbreviation usage_line :: lineEq_t where
  "usage_line \<equiv>
     create lineEq_init \<lparr>x = lit 1 1, y = lit 2 1\<rparr> \<lparr>x = lit 3 1, y = lit 4 1\<rparr>
       (lit (- 10) 1) (lit 10 1)"

abbreviation vertical_line :: lineEq_t where
  "vertical_line \<equiv>
     create lineEq_init \<lparr>x = lit 5 1, y = lit 1 1\<rparr> \<lparr>x = lit 5 1, y = lit 9 1\<rparr>
       (lit 0 1) (lit 100 1)"

abbreviation epsilon_line :: lineEq_t where
  "epsilon_line \<equiv>
     create lineEq_init \<lparr>x = lit 0 1, y = lit 0 1\<rparr> \<lparr>x = lit 1 1000000, y = lit 1 1\<rparr>
       (lit 0 1) (lit 1 1)"

abbreviation overflow_line :: lineEq_t where
  "overflow_line \<equiv>
     create lineEq_init \<lparr>x = lit 0 1, y = lit (- 3 * 10 ^ 38) 1\<rparr>
       \<lparr>x = lit 1 1, y = lit (3 * 10 ^ 38) 1\<rparr> (lit 0 1) (lit 1 1)"

abbreviation overflow_line_wide :: lineEq_t where
  "overflow_line_wide \<equiv>
     create lineEq_init \<lparr>x = lit 0 1, y = lit (- 3 * 10 ^ 38) 1\<rparr>
       \<lparr>x = lit 1 1, y = lit (3 * 10 ^ 38) 1\<rparr> (lit (- 3 * 10 ^ 38) 1) (lit (3 * 10 ^ 38) 1)"

abbreviation cancelling_line :: lineEq_t where
  "cancelling_line \<equiv>
     create lineEq_init \<lparr>x = lit 1 1, y = lit 1 1\<rparr> \<lparr>x = lit 0 1, y = lit 33554432 1\<rparr>
       (lit (- 67108864) 1) (lit 67108864 1)"

abbreviation steep_line :: lineEq_t where
  "steep_line \<equiv>
     create lineEq_init \<lparr>x = lit 71 10, y = lit 506 1\<rparr> \<lparr>x = lit 8 10, y = lit 278 10\<rparr>
       (lit (- 1000) 1) (lit 1000 1)"

abbreviation inverted_line :: lineEq_t where
  "inverted_line \<equiv>
     create lineEq_init \<lparr>x = lit 0 1, y = lit 0 1\<rparr> \<lparr>x = lit 1 1, y = lit 1 1\<rparr>
       (lit 10 1) (lit 0 1)"

section \<open>Facts about the arithmetic\<close>

lemmas f32_eval =
  lit_def round32_def round32_scaled_def quantum_exp_def scaled_mantissa_def
  floor_log2_def bit_length.simps
  round_half_even_def signed_def pow2_def f32_sub_def f32_gt_def f32_le_def Let_def

lemmas model_eval = create_def evaluate_def unclamped_def lineEq_init_def

lemma pow2_pos: "0 < pow2 e"
  by (simp add: pow2_def)

text \<open>Some literals and results, as the binary32 encodings have them.\<close>

lemma lit_zero: "lit 0 d = Finite False 0 (- 149)"
  by (simp add: lit_def round32_def)

lemma lit_1e_6: "lit 1 1000000 = Finite False 8796093 (- 43)"
  by (simp add: f32_eval)

lemma lit_one_tenth: "lit 1 10 = Finite False 13421773 (- 27)"
  by (simp add: f32_eval)

lemma one_third: "f32_div (lit 1 1) (lit 3 1) = Finite False 11184811 (- 25)"
  by (simp add: f32_eval)

lemma tenth_plus_fifth: "f32_add (lit 1 10) (lit 2 10) = lit 3 10"
  by (simp add: f32_eval)

lemma one_minus_nine_tenths: "f32_sub (lit 1 1) (lit 9 10) = Finite False 13421776 (- 27)"
  by (simp add: f32_eval)

lemma largest_finite_doubled:
  "f32_add (Finite False (2 ^ 24 - 1) 104) (Finite False (2 ^ 24 - 1) 104) = Infinity False"
  by (simp add: f32_eval)

lemma smallest_subnormal_halved:
  "f32_div (Finite True 1 (- 149)) (lit 2 1) = Finite True 0 (- 149)"
  by (simp add: f32_eval)

lemma tie_to_even: "f32_add (lit 16777216 1) (lit 1 1) = lit 16777216 1"
  by (simp add: f32_eval)

lemma valof_abs: "valof (f32_abs a) = \<bar>valof a\<bar>"
  by (cases a) (simp_all add: abs_mult pow2_def)

lemma valof_eps_pos: "0 < valof (lit 1 1000000)"
  by (simp add: lit_1e_6 pow2_def)

lemma is_finite_neg: "is_finite (f32_neg a) = is_finite a"
  by (cases a) simp_all

lemma is_finite_add: "is_finite (f32_add a b) \<Longrightarrow> is_finite a \<and> is_finite b"
  by (cases a; cases b) (simp_all split: if_splits)

lemma is_finite_sub: "is_finite (f32_sub a b) \<Longrightarrow> is_finite a \<and> is_finite b"
  using is_finite_add [of a "f32_neg b"] by (simp add: f32_sub_def is_finite_neg)

lemma f32_sub_self: "is_finite a \<Longrightarrow> f32_sub a a = Finite False 0 (- 149)"
  by (cases a) (simp_all add: f32_sub_def signed_def Let_def)

lemma f32_mul_zero_finite:
  "is_finite v \<Longrightarrow> \<exists>sg. f32_mul (Finite False 0 (- 149)) v = Finite sg 0 (- 149)"
  by (cases v) (simp_all add: round32_scaled_def round32_def)

subsection \<open>Rounding is to a nearest binary32 value\<close>

text \<open>
  The result of \<open>round32\<close> is a binary32 value, and a finite result lies within half a
  unit in its last place of the number rounded; a tie goes to the even mantissa.
\<close>

lemma pow2_powi: "pow2 e = 2 powi e"
  by (simp add: pow2_def power_int_def field_simps)

lemma pow2_add: "pow2 (a + b) = pow2 a * pow2 b"
  by (simp add: pow2_powi power_int_add)

lemma pow2_nat: "pow2 (int k) = 2 ^ k"
  by (simp add: pow2_def)

lemma pow2_mono: "a \<le> b \<Longrightarrow> pow2 a \<le> pow2 b"
  by (simp add: pow2_powi power_int_increasing)

lemma pow2_nat_pred: "0 < b \<Longrightarrow> pow2 (int b - 1) = 2 ^ (b - 1)"
  by (cases b) (simp_all add: pow2_def)

text \<open>\<open>bit_length\<close> and \<open>floor_log2\<close> compute what their names say.\<close>

lemma bit_length_bounds: "0 < n \<Longrightarrow> 2 ^ (bit_length n - 1) \<le> n \<and> n < 2 ^ bit_length n"
proof (induction n rule: bit_length.induct)
  case (1 n)
  show ?case
  proof (cases "n div 2 = 0")
    case True
    with "1.prems" have "n = 1" by presburger
    then show ?thesis by (simp add: bit_length.simps)
  next
    case False
    then have pos: "0 < n div 2" by simp
    from "1.prems" have n0: "n \<noteq> 0" by simp
    from "1.IH" [OF n0 pos]
    have lo: "2 ^ (bit_length (n div 2) - 1) \<le> n div 2" and hi: "n div 2 < 2 ^ bit_length (n div 2)"
      by simp_all
    have bl: "bit_length n = Suc (bit_length (n div 2))"
      using n0 by (subst bit_length.simps) simp
    have blpos: "0 < bit_length (n div 2)"
      using pos by (subst bit_length.simps) simp
    have "2 * 2 ^ (bit_length (n div 2) - 1) \<le> n" using lo by presburger
    moreover have "2 * 2 ^ (bit_length (n div 2) - 1) = (2::nat) ^ bit_length (n div 2)"
      using blpos by (cases "bit_length (n div 2)") simp_all
    moreover have "n < 2 * 2 ^ bit_length (n div 2)" using hi by presburger
    ultimately show ?thesis by (simp add: bl)
  qed
qed

lemma floor_log2_bounds:
  assumes "0 < n" and "0 < d"
  shows "real d * pow2 (floor_log2 n d) \<le> real n \<and> real n < real d * pow2 (floor_log2 n d + 1)"
proof -
  define bn where "bn = bit_length n"
  define bd where "bd = bit_length d"
  define k where "k = int bn - int bd"
  from bit_length_bounds [OF assms(1)] have n1: "2 ^ (bn - 1) \<le> n" and n2: "n < 2 ^ bn"
    by (simp_all add: bn_def)
  from bit_length_bounds [OF assms(2)] have d1: "2 ^ (bd - 1) \<le> d" and d2: "d < 2 ^ bd"
    by (simp_all add: bd_def)
  have bnpos: "0 < bn" using n2 assms(1) by (cases bn) simp_all
  have bdpos: "0 < bd" using d2 assms(2) by (cases bd) simp_all
  have rn1: "pow2 (int bn - 1) \<le> real n"
  proof -
    have "real (2 ^ (bn - 1)) \<le> real n" using n1 by (rule of_nat_mono)
    then show ?thesis using bnpos by (simp add: pow2_nat_pred)
  qed
  have rn2: "real n < pow2 (int bn)"
  proof -
    have "real n < real (2 ^ bn)" using n2 by (simp only: of_nat_less_iff)
    then show ?thesis by (simp add: pow2_nat)
  qed
  have rd1: "pow2 (int bd - 1) \<le> real d"
  proof -
    have "real (2 ^ (bd - 1)) \<le> real d" using d1 by (rule of_nat_mono)
    then show ?thesis using bdpos by (simp add: pow2_nat_pred)
  qed
  have rd2: "real d < pow2 (int bd)"
  proof -
    have "real d < real (2 ^ bd)" using d2 by (simp only: of_nat_less_iff)
    then show ?thesis by (simp add: pow2_nat)
  qed
  have up: "real n < real d * pow2 (k + 1)"
  proof -
    have "pow2 (int bn) = pow2 (int bd - 1) * pow2 (k + 1)"
      by (simp add: k_def pow2_add [symmetric])
    also have "\<dots> \<le> real d * pow2 (k + 1)"
      using rd1 pow2_pos [of "k + 1"] by (simp add: mult_right_mono)
    finally show ?thesis using rn2 by simp
  qed
  have low: "real d * pow2 (k - 1) \<le> real n"
  proof -
    have "real d * pow2 (k - 1) \<le> pow2 (int bd) * pow2 (k - 1)"
      using rd2 pow2_pos [of "k - 1"] by (simp add: mult_right_mono)
    also have "\<dots> = pow2 (int bn - 1)"
      by (simp add: k_def pow2_add [symmetric])
    finally show ?thesis using rn1 by simp
  qed
  have test: "(if 0 \<le> k then d * 2 ^ nat k \<le> n else d \<le> n * 2 ^ nat (- k))
                = (real d * pow2 k \<le> real n)"
  proof (cases "0 \<le> k")
    case True
    then have "pow2 k = real (2 ^ nat k)" by (simp add: pow2_def)
    then have "(real d * pow2 k \<le> real n) = (real (d * 2 ^ nat k) \<le> real n)" by simp
    also have "\<dots> = (d * 2 ^ nat k \<le> n)" by (simp only: of_nat_le_iff)
    finally show ?thesis using True by simp
  next
    case False
    then have "real d * pow2 k = real d / 2 ^ nat (- k)" by (simp add: pow2_def)
    then have "(real d * pow2 k \<le> real n) = (real d / 2 ^ nat (- k) \<le> real n)" by simp
    also have "\<dots> = (real d \<le> real n * 2 ^ nat (- k))"
      by (simp add: pos_divide_le_eq)
    also have "\<dots> = (real d \<le> real (n * 2 ^ nat (- k)))" by simp
    also have "\<dots> = (d \<le> n * 2 ^ nat (- k))" by (simp only: of_nat_le_iff)
    finally show ?thesis using False by simp
  qed
  have "floor_log2 n d =
          (if (if 0 \<le> k then d * 2 ^ nat k \<le> n else d \<le> n * 2 ^ nat (- k)) then k else k - 1)"
    by (simp add: floor_log2_def Let_def k_def bn_def bd_def)
  then have fl: "floor_log2 n d = (if real d * pow2 k \<le> real n then k else k - 1)"
    by (simp only: test)
  show ?thesis
  proof (cases "real d * pow2 k \<le> real n")
    case True
    with fl up show ?thesis by simp
  next
    case False
    with fl low show ?thesis by simp
  qed
qed

text \<open>Rounding to an integer moves by at most one half.\<close>

lemma round_half_even_error:
  assumes "0 < d"
  shows "\<bar>real (round_half_even n d) - real n / real d\<bar> \<le> 1 / 2"
proof -
  define q where "q = n div d"
  define r where "r = n mod d"
  have n: "n = q * d + r" by (simp add: q_def r_def)
  have r: "r < d" using assms by (simp add: r_def)
  have frac: "real n / real d = real q + real r / real d"
    using assms by (simp add: n field_simps)
  have r0: "0 \<le> real r / real d" by simp
  have r1: "real r / real d < 1" using r assms by simp
  consider (lo) "2 * r < d" | (hi) "d < 2 * r" | (tie) "2 * r = d" by linarith
  then show ?thesis
  proof cases
    case lo
    then have "round_half_even n d = q" by (simp add: round_half_even_def q_def r_def)
    moreover have "real r / real d \<le> 1 / 2"
      using lo assms by (simp add: field_simps)
    ultimately show ?thesis using frac r0 by simp
  next
    case hi
    then have "round_half_even n d = q + 1" by (simp add: round_half_even_def q_def r_def)
    moreover have "1 / 2 \<le> real r / real d"
      using hi assms by (simp add: field_simps)
    ultimately show ?thesis using frac r1 by simp
  next
    case tie
    then have "round_half_even n d = q \<or> round_half_even n d = q + 1"
      by (simp add: round_half_even_def q_def r_def Let_def)
    moreover have "real r / real d = 1 / 2"
    proof -
      have "real (2 * r) = real d" using tie by simp
      then show ?thesis using assms by (simp add: field_simps)
    qed
    ultimately show ?thesis using frac by auto
  qed
qed

text \<open>The mantissa has at most 24 bits, and exactly 24 above the subnormal range.\<close>

lemma scaled_mantissa_error:
  assumes "0 < d"
  shows "\<bar>real (scaled_mantissa n d) - real n / (real d * pow2 (quantum_exp n d))\<bar> \<le> 1 / 2"
proof (cases "0 \<le> quantum_exp n d")
  case True
  then have p: "pow2 (quantum_exp n d) = 2 ^ nat (quantum_exp n d)" by (simp add: pow2_def)
  from True have "scaled_mantissa n d = round_half_even n (d * 2 ^ nat (quantum_exp n d))"
    by (simp add: scaled_mantissa_def Let_def)
  moreover have "0 < d * 2 ^ nat (quantum_exp n d)" using assms by simp
  ultimately show ?thesis
    using round_half_even_error [of "d * 2 ^ nat (quantum_exp n d)" n] by (simp add: p)
next
  case False
  then have p: "pow2 (quantum_exp n d) = 1 / 2 ^ nat (- quantum_exp n d)" by (simp add: pow2_def)
  from False have "scaled_mantissa n d = round_half_even (n * 2 ^ nat (- quantum_exp n d)) d"
    by (simp add: scaled_mantissa_def Let_def)
  then show ?thesis
    using round_half_even_error [OF assms, of "n * 2 ^ nat (- quantum_exp n d)"] by (simp add: p)
qed

lemma scaled_range:
  assumes "0 < n" and "0 < d"
  shows "pow2 (floor_log2 n d - quantum_exp n d) \<le> real n / (real d * pow2 (quantum_exp n d))"
    and "real n / (real d * pow2 (quantum_exp n d)) < pow2 (floor_log2 n d + 1 - quantum_exp n d)"
proof -
  let ?k = "floor_log2 n d" and ?e = "quantum_exp n d"
  from floor_log2_bounds [OF assms]
  have lo: "real d * pow2 ?k \<le> real n" and hi: "real n < real d * pow2 (?k + 1)" by simp_all
  have dp: "0 < real d * pow2 ?e" using assms(2) pow2_pos by simp
  have a: "pow2 (?k - ?e) * pow2 ?e = pow2 ?k" by (simp add: pow2_add [symmetric])
  have "pow2 (?k - ?e) * (real d * pow2 ?e) = real d * (pow2 (?k - ?e) * pow2 ?e)"
    by (simp only: mult.left_commute)
  also have "\<dots> = real d * pow2 ?k" by (simp only: a)
  finally have "pow2 (?k - ?e) * (real d * pow2 ?e) \<le> real n" using lo by (simp only:)
  then show "pow2 (?k - ?e) \<le> real n / (real d * pow2 ?e)"
    using dp by (simp only: pos_le_divide_eq)
  have b: "pow2 (?k + 1 - ?e) * pow2 ?e = pow2 (?k + 1)" by (simp add: pow2_add [symmetric])
  have "pow2 (?k + 1 - ?e) * (real d * pow2 ?e) = real d * (pow2 (?k + 1 - ?e) * pow2 ?e)"
    by (simp only: mult.left_commute)
  also have "\<dots> = real d * pow2 (?k + 1)" by (simp only: b)
  finally have "real n < pow2 (?k + 1 - ?e) * (real d * pow2 ?e)" using hi by (simp only:)
  then show "real n / (real d * pow2 ?e) < pow2 (?k + 1 - ?e)"
    using dp by (simp only: pos_divide_less_eq)
qed

lemma mantissa_upper:
  assumes "0 < n" and "0 < d"
  shows "scaled_mantissa n d \<le> 2 ^ 24"
proof -
  have "floor_log2 n d + 1 - quantum_exp n d \<le> 24" by (simp add: quantum_exp_def)
  then have "pow2 (floor_log2 n d + 1 - quantum_exp n d) \<le> pow2 24" by (rule pow2_mono)
  with scaled_range(2) [OF assms]
  have "real n / (real d * pow2 (quantum_exp n d)) < 2 ^ 24" by (simp add: pow2_def)
  with scaled_mantissa_error [OF assms(2), of n]
  have "real (scaled_mantissa n d) < 2 ^ 24 + 1" by linarith
  then have "real (scaled_mantissa n d) < real (2 ^ 24 + 1)" by simp
  then have "scaled_mantissa n d < 2 ^ 24 + 1" by (simp only: of_nat_less_iff)
  then show ?thesis by simp
qed

lemma mantissa_subnormal:
  assumes "0 < n" and "0 < d" and "floor_log2 n d - 23 < - 149"
  shows "scaled_mantissa n d \<le> 2 ^ 23"
proof -
  from assms(3) have "floor_log2 n d + 1 - quantum_exp n d \<le> 23" by (simp add: quantum_exp_def)
  then have "pow2 (floor_log2 n d + 1 - quantum_exp n d) \<le> pow2 23" by (rule pow2_mono)
  with scaled_range(2) [OF assms(1,2)]
  have "real n / (real d * pow2 (quantum_exp n d)) < 2 ^ 23" by (simp add: pow2_def)
  with scaled_mantissa_error [OF assms(2), of n]
  have "real (scaled_mantissa n d) < 2 ^ 23 + 1" by linarith
  then have "real (scaled_mantissa n d) < real (2 ^ 23 + 1)" by simp
  then have "scaled_mantissa n d < 2 ^ 23 + 1" by (simp only: of_nat_less_iff)
  then show ?thesis by simp
qed

lemma mantissa_normal:
  assumes "0 < n" and "0 < d" and "- 149 \<le> floor_log2 n d - 23"
  shows "2 ^ 23 \<le> scaled_mantissa n d"
proof -
  from assms(3) have "floor_log2 n d - quantum_exp n d = 23" by (simp add: quantum_exp_def)
  with scaled_range(1) [OF assms(1,2)]
  have "2 ^ 23 \<le> real n / (real d * pow2 (quantum_exp n d))" by (simp add: pow2_def)
  with scaled_mantissa_error [OF assms(2), of n]
  have "2 ^ 23 - 1 < real (scaled_mantissa n d)" by linarith
  then have "real (2 ^ 23 - 1) < real (scaled_mantissa n d)" by simp
  then have "2 ^ 23 - 1 < scaled_mantissa n d" by (simp only: of_nat_less_iff)
  then show ?thesis by simp
qed

lemma round32_valid:
  assumes "0 < d"
  shows "valid32 (round32 sg n d)"
proof (cases "n = 0")
  case True
  then show ?thesis by (simp add: round32_def valid32_def)
next
  case False
  then have n: "0 < n" by simp
  let ?m = "scaled_mantissa n d" and ?e = "quantum_exp n d"
  have up: "?m \<le> 2 ^ 24" using n assms by (rule mantissa_upper)
  have e149: "- 149 \<le> ?e" by (simp add: quantum_exp_def)
  show ?thesis
  proof (cases "- 149 \<le> floor_log2 n d - 23")
    case True
    then have "2 ^ 23 \<le> ?m" using mantissa_normal [OF n assms] by simp
    with up e149 False show ?thesis
      by (auto simp: round32_def valid32_def Let_def)
  next
    case sub: False
    then have "?m \<le> 2 ^ 23" using mantissa_subnormal [OF n assms] by simp
    moreover from sub have "?e = - 149" by (simp add: quantum_exp_def)
    ultimately show ?thesis using False
      by (auto simp: round32_def valid32_def Let_def)
  qed
qed

lemma round32_error:
  assumes "0 < d" and "round32 sg n d = Finite s m e"
  shows "s = sg \<and> \<bar>real m * pow2 e - real n / real d\<bar> \<le> pow2 e / 2"
proof (cases "n = 0")
  case True
  with assms(2) show ?thesis using pow2_pos [of e] by (simp add: round32_def less_imp_le)
next
  case False
  let ?m = "scaled_mantissa n d" and ?e = "quantum_exp n d"
  have pe: "0 < pow2 ?e" by (rule pow2_pos)
  have "\<bar>real ?m - real n / (real d * pow2 ?e)\<bar> * pow2 ?e \<le> 1 / 2 * pow2 ?e"
    using scaled_mantissa_error [OF assms(1), of n] pe by (simp add: mult_right_mono)
  moreover have "\<bar>real ?m - real n / (real d * pow2 ?e)\<bar> * pow2 ?e
      = \<bar>(real ?m - real n / (real d * pow2 ?e)) * pow2 ?e\<bar>"
    using pe by (simp add: abs_mult)
  moreover have "(real ?m - real n / (real d * pow2 ?e)) * pow2 ?e
      = real ?m * pow2 ?e - real n / real d"
    using pe assms(1) by (simp add: field_simps)
  ultimately have err: "\<bar>real ?m * pow2 ?e - real n / real d\<bar> \<le> pow2 ?e / 2" by simp
  show ?thesis
  proof (cases "?m = 2 ^ 24")
    case True
    with assms(2) False have s: "s = sg" and m: "m = 2 ^ 23" and e: "e = ?e + 1"
      by (simp_all add: round32_def Let_def split: if_splits)
    have "pow2 1 = 2" by (simp add: pow2_def)
    then have "real m * pow2 e = real ?m * pow2 ?e"
      by (simp add: m e True pow2_add)
    moreover have "pow2 ?e \<le> pow2 e" unfolding e by (rule pow2_mono) simp
    ultimately show ?thesis using err s by simp
  next
    case ne: False
    with assms(2) False have "s = sg" and "m = ?m" and "e = ?e"
      by (simp_all add: round32_def Let_def split: if_splits)
    with err show ?thesis by simp
  qed
qed

lemma round_half_even_tie:
  assumes "2 * (n mod d) = d"
  shows "even (round_half_even n d)"
  using assms by (simp add: round_half_even_def Let_def)

lemma round32_scaled_valid: "0 < d \<Longrightarrow> valid32 (round32_scaled sg n d e)"
  by (simp add: round32_scaled_def round32_valid)

lemma round32_scaled_error:
  assumes "0 < d" and "round32_scaled sg n d e0 = Finite s m e"
  shows "s = sg \<and> \<bar>real m * pow2 e - real n / real d * pow2 e0\<bar> \<le> pow2 e / 2"
proof (cases "0 \<le> e0")
  case True
  with assms(2) have "round32 sg (n * 2 ^ nat e0) d = Finite s m e"
    by (simp add: round32_scaled_def)
  from round32_error [OF assms(1) this] True show ?thesis by (simp add: pow2_def)
next
  case False
  with assms(2) have r: "round32 sg n (d * 2 ^ nat (- e0)) = Finite s m e"
    by (simp add: round32_scaled_def)
  have "0 < d * 2 ^ nat (- e0)" using assms(1) by simp
  from round32_error [OF this r] False show ?thesis by (simp add: pow2_def)
qed

lemma valof_signed: "valof (Finite s m e) = real_of_int (signed s m) * pow2 e"
  by (simp add: signed_def)

lemma valof_neg: "valof (f32_neg a) = - valof a"
  by (cases a) simp_all

text \<open>Every result of an operation is a binary32 value.\<close>

lemma valid32_neg: "valid32 (f32_neg a) = valid32 a"
  by (cases a) (simp_all add: valid32_def)

lemma valid32_abs: "valid32 (f32_abs a) = valid32 a"
  by (cases a) (simp_all add: valid32_def)

lemma valid32_lit: "0 < d \<Longrightarrow> valid32 (lit n d)"
  by (simp add: lit_def round32_valid)

lemma valid32_add: "valid32 (f32_add a b)"
  by (cases a; cases b) (simp_all add: valid32_def [of NaN] valid32_def [of "Infinity s" for s]
      valid32_def [of "Finite s 0 (- 149)" for s] round32_scaled_valid Let_def)

lemma valid32_sub: "valid32 (f32_sub a b)"
  by (simp add: f32_sub_def valid32_add)

lemma valid32_mul: "valid32 (f32_mul a b)"
  by (cases a; cases b) (simp_all add: valid32_def [of NaN] valid32_def [of "Infinity s" for s]
      round32_scaled_valid)

lemma valid32_div: "valid32 (f32_div a b)"
  by (cases a; cases b) (simp_all add: valid32_def [of NaN] valid32_def [of "Infinity s" for s]
      valid32_def [of "Finite s 0 (- 149)" for s] round32_scaled_valid)

text \<open>
  A finite result of an operation on finite arguments lies within half a unit in its last
  place of the exact result.
\<close>

lemma pow2_diff_nat: "b \<le> a \<Longrightarrow> 2 ^ nat (a - b) * pow2 b = pow2 a"
proof -
  assume "b \<le> a"
  then have "pow2 (a - b) = 2 ^ nat (a - b)" by (simp add: pow2_def)
  moreover have "pow2 (a - b) * pow2 b = pow2 a" by (simp add: pow2_add [symmetric])
  ultimately show ?thesis by simp
qed

lemma abs_neg_le: "t = - u \<Longrightarrow> \<bar>u\<bar> \<le> c \<Longrightarrow> \<bar>t\<bar> \<le> (c::real)"
  by simp

lemma f32_add_error:
  assumes "is_finite a" and "is_finite b" and "f32_add a b = Finite s m e"
  shows "\<bar>valof (f32_add a b) - (valof a + valof b)\<bar> \<le> pow2 e / 2"
proof -
  from assms(1) obtain s1 m1 e1 where a: "a = Finite s1 m1 e1" by (cases a) simp_all
  from assms(2) obtain s2 m2 e2 where b: "b = Finite s2 m2 e2" by (cases b) simp_all
  define em where "em = min e1 e2"
  define v where "v = signed s1 m1 * 2 ^ nat (e1 - em) + signed s2 m2 * 2 ^ nat (e2 - em)"
  have "real_of_int v * pow2 em
      = real_of_int (signed s1 m1) * (2 ^ nat (e1 - em) * pow2 em)
        + real_of_int (signed s2 m2) * (2 ^ nat (e2 - em) * pow2 em)"
    by (simp add: v_def algebra_simps)
  also have "\<dots> = valof a + valof b"
    by (simp add: a b valof_signed pow2_diff_nat em_def del: valof.simps)
  finally have sum: "real_of_int v * pow2 em = valof a + valof b" .
  show ?thesis
  proof (cases "v = 0")
    case True
    then have "f32_add a b = Finite (s1 \<and> s2) 0 (- 149)"
      by (simp add: a b Let_def v_def em_def)
    moreover from True sum have "valof a + valof b = 0" by simp
    ultimately show ?thesis using pow2_pos [of e] by (simp add: less_imp_le)
  next
    case False
    then have r: "f32_add a b = round32_scaled (v < 0) (nat \<bar>v\<bar>) 1 em"
      by (simp add: a b Let_def v_def em_def)
    with assms(3) have "round32_scaled (v < 0) (nat \<bar>v\<bar>) 1 em = Finite s m e" by simp
    from round32_scaled_error [OF _ this]
    have s: "s = (v < 0)" and err: "\<bar>real m * pow2 e - real (nat \<bar>v\<bar>) * pow2 em\<bar> \<le> pow2 e / 2"
      by simp_all
    have absv: "real (nat \<bar>v\<bar>) = \<bar>real_of_int v\<bar>" by simp
    show ?thesis
    proof (cases "v < 0")
      case True
      then have "valof (f32_add a b) - (valof a + valof b)
          = - (real m * pow2 e - real (nat \<bar>v\<bar>) * pow2 em)"
        using s assms(3) sum [symmetric] by (simp add: absv algebra_simps)
      from abs_neg_le [OF this err] show ?thesis .
    next
      case nn: False
      then have "valof (f32_add a b) - (valof a + valof b)
          = real m * pow2 e - real (nat \<bar>v\<bar>) * pow2 em"
        using s assms(3) sum [symmetric] by (simp add: absv algebra_simps)
      with err show ?thesis by simp
    qed
  qed
qed

lemma f32_sub_error:
  assumes "is_finite a" and "is_finite b" and "f32_sub a b = Finite s m e"
  shows "\<bar>valof (f32_sub a b) - (valof a - valof b)\<bar> \<le> pow2 e / 2"
  using f32_add_error [of a "f32_neg b" s m e] assms
  by (simp add: f32_sub_def is_finite_neg valof_neg)

lemma f32_mul_error:
  assumes "is_finite a" and "is_finite b" and "f32_mul a b = Finite s m e"
  shows "\<bar>valof (f32_mul a b) - valof a * valof b\<bar> \<le> pow2 e / 2"
proof -
  from assms(1) obtain s1 m1 e1 where a: "a = Finite s1 m1 e1" by (cases a) simp_all
  from assms(2) obtain s2 m2 e2 where b: "b = Finite s2 m2 e2" by (cases b) simp_all
  from assms(3) have "round32_scaled (s1 \<noteq> s2) (m1 * m2) 1 (e1 + e2) = Finite s m e"
    by (simp add: a b)
  from round32_scaled_error [OF _ this]
  have s: "s = (s1 \<noteq> s2)"
    and err: "\<bar>real m * pow2 e - real (m1 * m2) * pow2 (e1 + e2)\<bar> \<le> pow2 e / 2"
    by simp_all
  have prod: "valof a * valof b
      = (if s1 \<noteq> s2 then - 1 else 1) * (real (m1 * m2) * pow2 (e1 + e2))"
    by (simp add: a b pow2_add)
  show ?thesis
  proof (cases "s1 \<noteq> s2")
    case True
    then have "valof (f32_mul a b) - valof a * valof b
        = - (real m * pow2 e - real (m1 * m2) * pow2 (e1 + e2))"
      using s assms(3) prod by simp
    from abs_neg_le [OF this err] show ?thesis .
  next
    case False
    then have "valof (f32_mul a b) - valof a * valof b
        = real m * pow2 e - real (m1 * m2) * pow2 (e1 + e2)"
      using s assms(3) prod by simp
    with err show ?thesis by simp
  qed
qed

lemma f32_div_error:
  assumes "is_finite a" and "is_finite b" and "valof b \<noteq> 0" and "f32_div a b = Finite s m e"
  shows "\<bar>valof (f32_div a b) - valof a / valof b\<bar> \<le> pow2 e / 2"
proof -
  from assms(1) obtain s1 m1 e1 where a: "a = Finite s1 m1 e1" by (cases a) simp_all
  from assms(2) obtain s2 m2 e2 where b: "b = Finite s2 m2 e2" by (cases b) simp_all
  have "valof (Finite s2 0 e2) = 0" by simp
  with assms(3) have "m2 \<noteq> 0" unfolding b by metis
  then have m2: "0 < m2" by simp
  with assms(4) have "round32_scaled (s1 \<noteq> s2) m1 m2 (e1 - e2) = Finite s m e"
    by (simp add: a b)
  from round32_scaled_error [OF m2 this]
  have s: "s = (s1 \<noteq> s2)"
    and err: "\<bar>real m * pow2 e - real m1 / real m2 * pow2 (e1 - e2)\<bar> \<le> pow2 e / 2"
    by simp_all
  have "pow2 (e1 - e2) * pow2 e2 = pow2 e1" by (simp add: pow2_add [symmetric])
  then have "pow2 e1 / pow2 e2 = pow2 (e1 - e2)"
    using pow2_pos [of e2] by (simp add: field_simps)
  then have "real m1 * pow2 e1 / (real m2 * pow2 e2) = real m1 / real m2 * pow2 (e1 - e2)"
    by (simp add: times_divide_times_eq [symmetric] del: times_divide_times_eq)
  then have quot: "valof a / valof b
      = (if s1 \<noteq> s2 then - 1 else 1) * (real m1 / real m2 * pow2 (e1 - e2))"
    by (simp add: a b)
  show ?thesis
  proof (cases "s1 \<noteq> s2")
    case True
    then have "valof (f32_div a b) - valof a / valof b
        = - (real m * pow2 e - real m1 / real m2 * pow2 (e1 - e2))"
      using s assms(4) quot by simp
    from abs_neg_le [OF this err] show ?thesis .
  next
    case False
    then have "valof (f32_div a b) - valof a / valof b
        = real m * pow2 e - real m1 / real m2 * pow2 (e1 - e2)"
      using s assms(4) quot by simp
    with err show ?thesis by simp
  qed
qed

lemma half_ulp_nonneg: "0 \<le> half_ulp a"
  using pow2_pos by (cases a) (simp_all add: less_imp_le)

text \<open>
  Half a unit in the last place is at most \<open>2^-24\<close> of the value, or \<open>2^-150\<close> for a
  zero or subnormal value.
\<close>

lemma half_ulp_bound:
  assumes "valid32 a"
  shows "half_ulp a \<le> max (\<bar>valof a\<bar> / 2 ^ 24) (pow2 (- 150))"
proof (cases a)
  case (Finite sg m e)
  show ?thesis
  proof (cases "2 ^ 23 \<le> m")
    case True
    then have "real (2 ^ 23) \<le> real m" by (simp only: of_nat_le_iff)
    then have "2 ^ 23 * pow2 e \<le> real m * pow2 e"
      using pow2_pos [of e] by (simp add: mult_right_mono)
    moreover have "\<bar>valof a\<bar> = real m * pow2 e"
      using pow2_pos [of e] by (simp add: Finite abs_mult less_imp_le)
    ultimately have "half_ulp a \<le> \<bar>valof a\<bar> / 2 ^ 24" by (simp add: Finite)
    then show ?thesis by simp
  next
    case False
    with assms have "e = - 149" by (simp add: valid32_def Finite)
    then have "half_ulp a = pow2 (- 150)" by (simp add: Finite pow2_def)
    then show ?thesis by simp
  qed
qed (simp_all add: pow2_pos less_imp_le)

lemma f32_add_half_ulp:
  assumes "is_finite a" and "is_finite b" and "is_finite (f32_add a b)"
  shows "\<bar>valof (f32_add a b) - (valof a + valof b)\<bar> \<le> half_ulp (f32_add a b)"
proof -
  from assms(3) obtain s m e where r: "f32_add a b = Finite s m e"
    by (cases "f32_add a b") simp_all
  from f32_add_error [OF assms(1,2) r] show ?thesis by (simp add: r)
qed

lemma f32_sub_half_ulp:
  assumes "is_finite a" and "is_finite b" and "is_finite (f32_sub a b)"
  shows "\<bar>valof (f32_sub a b) - (valof a - valof b)\<bar> \<le> half_ulp (f32_sub a b)"
proof -
  from assms(3) obtain s m e where r: "f32_sub a b = Finite s m e"
    by (cases "f32_sub a b") simp_all
  from f32_sub_error [OF assms(1,2) r] show ?thesis by (simp add: r)
qed

lemma f32_mul_half_ulp:
  assumes "is_finite a" and "is_finite b" and "is_finite (f32_mul a b)"
  shows "\<bar>valof (f32_mul a b) - valof a * valof b\<bar> \<le> half_ulp (f32_mul a b)"
proof -
  from assms(3) obtain s m e where r: "f32_mul a b = Finite s m e"
    by (cases "f32_mul a b") simp_all
  from f32_mul_error [OF assms(1,2) r] show ?thesis by (simp add: r)
qed

lemma f32_div_half_ulp:
  assumes "is_finite a" and "is_finite b" and "valof b \<noteq> 0" and "is_finite (f32_div a b)"
  shows "\<bar>valof (f32_div a b) - valof a / valof b\<bar> \<le> half_ulp (f32_div a b)"
proof -
  from assms(4) obtain s m e where r: "f32_div a b = Finite s m e"
    by (cases "f32_div a b") simp_all
  from f32_div_error [OF assms(1,2,3) r] show ?thesis by (simp add: r)
qed

lemma is_finite_mul: "is_finite (f32_mul a b) \<Longrightarrow> is_finite a \<and> is_finite b"
  by (cases a; cases b) (simp_all split: if_splits)

lemma is_finite_div_num: "is_finite (f32_div a b) \<Longrightarrow> is_finite a"
  by (cases a; cases b) simp_all

subsection \<open>The comparisons order the values that are not NaN\<close>

lemma f32_lt_nan_right: "f32_lt a NaN = False"
  by (cases a) simp_all

lemma f32_lt_not_nan: "f32_lt a b \<Longrightarrow> \<not> is_nan a \<and> \<not> is_nan b"
  by (cases a; cases b) simp_all

lemma f32_eq_not_nan: "f32_eq a b \<Longrightarrow> \<not> is_nan a \<and> \<not> is_nan b"
  by (cases a; cases b) simp_all

lemma f32_le_not_nan: "f32_le a b \<Longrightarrow> \<not> is_nan a \<and> \<not> is_nan b"
  unfolding f32_le_def using f32_lt_not_nan f32_eq_not_nan by blast

lemma f32_le_refl: "\<not> is_nan a \<Longrightarrow> f32_le a a"
  by (cases a) (simp_all add: f32_le_def)

lemma f32_not_lt_le: "\<not> is_nan a \<Longrightarrow> \<not> is_nan b \<Longrightarrow> \<not> f32_lt a b \<Longrightarrow> f32_le b a"
  by (cases a; cases b) (auto simp: f32_le_def)

lemma f32_le_not_lt: "f32_le a b \<Longrightarrow> \<not> f32_lt b a"
  by (cases a; cases b) (auto simp: f32_le_def)

lemma f32_eq_not_lt: "f32_eq a b \<Longrightarrow> \<not> f32_lt a b"
  by (cases a; cases b) auto

lemma f32_lt_valof: "is_finite a \<Longrightarrow> is_finite b \<Longrightarrow> f32_lt a b = (valof a < valof b)"
  by (cases a; cases b) simp_all

lemma f32_eq_valof: "is_finite a \<Longrightarrow> is_finite b \<Longrightarrow> f32_eq a b = (valof a = valof b)"
  by (cases a; cases b) simp_all

lemma f32_lt_cong_left:
  "is_finite a \<Longrightarrow> is_finite b \<Longrightarrow> valof a = valof b \<Longrightarrow> f32_lt a c = f32_lt b c"
  by (cases a; cases b; cases c) simp_all

lemma f32_lt_cong_right:
  "is_finite a \<Longrightarrow> is_finite b \<Longrightarrow> valof a = valof b \<Longrightarrow> f32_lt c a = f32_lt c b"
  by (cases a; cases b; cases c) simp_all

lemma not_small_nonzero:
  assumes "is_finite d" and "\<not> f32_lt (f32_abs d) (lit 1 1000000)"
  shows "valof d \<noteq> 0"
proof -
  have "is_finite (f32_abs d)" using assms(1) by (cases d) simp_all
  moreover have "is_finite (lit 1 1000000)" by (simp add: lit_1e_6)
  ultimately have "\<not> valof (f32_abs d) < valof (lit 1 1000000)"
    using assms(2) by (simp add: f32_lt_valof)
  with valof_eps_pos show ?thesis by (simp add: valof_abs)
qed

lemma f32_le_finite_lower:
  assumes "f32_lt r mn" and "f32_le mn t" and "is_finite r" and "is_finite t"
  shows "is_finite mn \<and> valof r < valof mn \<and> valof mn \<le> valof t"
  using assms by (cases r; cases t; cases mn) (auto simp: f32_le_def)

lemma f32_le_finite_upper:
  assumes "f32_lt mx r" and "f32_le t mx" and "is_finite r" and "is_finite t"
  shows "is_finite mx \<and> valof mx < valof r \<and> valof t \<le> valof mx"
  using assms by (cases r; cases t; cases mx) (auto simp: f32_le_def)

section \<open>Facts about create and evaluate\<close>

lemma create_fields:
  "min_output (create s p1 p2 mn mx) = mn"
  "max_output (create s p1 p2 mn mx) = mx"
  "isVertical (create s p1 p2 mn mx) = f32_lt (f32_abs (f32_sub (x p2) (x p1))) (lit 1 1000000)"
  "slope (create s p1 p2 mn mx) =
     (if f32_lt (f32_abs (f32_sub (x p2) (x p1))) (lit 1 1000000) then lit 0 1
      else f32_div (f32_sub (y p2) (y p1)) (f32_sub (x p2) (x p1)))"
  "y_intercept (create s p1 p2 mn mx) =
     (if f32_lt (f32_abs (f32_sub (x p2) (x p1))) (lit 1 1000000) then x p1
      else f32_sub (y p1)
             (f32_mul (f32_div (f32_sub (y p2) (y p1)) (f32_sub (x p2) (x p1))) (x p1)))"
  by (simp_all add: create_def Let_def)

lemma evaluate_unclamped:
  "evaluate s v =
     (if f32_lt (unclamped s v) (min_output s) then min_output s
      else if f32_lt (max_output s) (unclamped s v) then max_output s
      else unclamped s v)"
  by (simp add: evaluate_def unclamped_def f32_gt_def Let_def)

lemma evaluate_in_range:
  assumes fr: "is_finite r" and ft: "is_finite t" and v: "valof r = valof t"
    and r: "unclamped s v = r"
    and lo: "f32_le (min_output s) t" and hi: "f32_le t (max_output s)"
  shows "f32_eq (evaluate s v) t"
proof -
  have "\<not> f32_lt t (min_output s)" and "\<not> f32_lt (max_output s) t"
    using lo hi by (simp_all add: f32_le_not_lt)
  then have "\<not> f32_lt r (min_output s)" and "\<not> f32_lt (max_output s) r"
    using f32_lt_cong_left [OF fr ft v] f32_lt_cong_right [OF fr ft v] by simp_all
  then have "evaluate s v = r"
    by (simp add: evaluate_unclamped r)
  then show ?thesis using fr ft v by (simp add: f32_eq_valof)
qed

lemma create_vertical_slope:
  "isVertical (create s p1 p2 mn mx) \<Longrightarrow> slope (create s p1 p2 mn mx) = lit 0 1"
  by (simp add: create_fields)

lemma create_all_invariant:
  "(isVertical s \<longrightarrow> slope s = lit 0 1) \<Longrightarrow>
   isVertical (create_all s cs) \<longrightarrow> slope (create_all s cs) = lit 0 1"
proof (induction cs arbitrary: s)
  case Nil
  then show ?case by simp
next
  case (Cons c cs)
  obtain p1 p2 mn mx where c: "c = (p1, p2, mn, mx)" by (cases c) auto
  have "isVertical (create s p1 p2 mn mx) \<longrightarrow> slope (create s p1 p2 mn mx) = lit 0 1"
    using create_vertical_slope by blast
  then show ?case using Cons.IH c by simp
qed

text \<open>
  Applying the output limits to a finite value does not move it away from a value within
  the limits.
\<close>

lemma evaluate_closer:
  assumes fr: "is_finite r" and ft: "is_finite t" and r: "unclamped s v = r"
    and lo: "f32_le (min_output s) t" and hi: "f32_le t (max_output s)"
  shows "is_finite (evaluate s v) \<and> \<bar>valof (evaluate s v) - valof t\<bar> \<le> \<bar>valof r - valof t\<bar>"
proof (cases "f32_lt r (min_output s)")
  case True
  then have "evaluate s v = min_output s" by (simp add: evaluate_unclamped r)
  with f32_le_finite_lower [OF True lo fr ft] show ?thesis by simp
next
  case nlo: False
  show ?thesis
  proof (cases "f32_lt (max_output s) r")
    case True
    with nlo have "evaluate s v = max_output s" by (simp add: evaluate_unclamped r)
    with f32_le_finite_upper [OF True hi fr ft] show ?thesis by simp
  next
    case False
    with nlo have "evaluate s v = r" by (simp add: evaluate_unclamped r)
    with fr show ?thesis by simp
  qed
qed

lemma abs_le_D: "\<bar>a - b\<bar> \<le> (c::real) \<Longrightarrow> \<exists>t. a = b + t \<and> \<bar>t\<bar> \<le> c"
  by (rule exI [of _ "a - b"]) simp

text \<open>The accumulated rounding error at the two points of a non-vertical line.\<close>

lemma unclamped_near_p1:
  assumes nv: "\<not> isVertical (create s p1 p2 mn mx)" and ov: "overflow_free p1 p2"
  shows "is_finite (unclamped (create s p1 p2 mn mx) (x p1)) \<and> is_finite (y p1)
    \<and> \<bar>valof (unclamped (create s p1 p2 mn mx) (x p1)) - valof (y p1)\<bar>
        \<le> half_ulp (y_intercept (create s p1 p2 mn mx))
          + half_ulp (unclamped (create s p1 p2 mn mx) (x p1))"
proof -
  let ?c = "create s p1 p2 mn mx"
  let ?dx = "f32_sub (x p2) (x p1)" and ?dy = "f32_sub (y p2) (y p1)"
  let ?m = "f32_div ?dy ?dx"
  let ?P = "f32_mul ?m (x p1)"
  let ?b = "f32_sub (y p1) ?P"
  let ?r = "f32_add ?P ?b"
  from nv have nlt: "\<not> f32_lt (f32_abs ?dx) (lit 1 1000000)" by (simp add: create_fields)
  then have sl: "slope ?c = ?m" and ic: "y_intercept ?c = ?b" by (simp_all add: create_fields)
  from nv have u: "unclamped ?c (x p1) = ?r" by (simp add: unclamped_def sl ic)
  from ov have fP: "is_finite ?P" and fb: "is_finite ?b" and fr: "is_finite ?r"
    by (simp_all add: overflow_free_def Let_def)
  from fb have fy: "is_finite (y p1)" using is_finite_sub by blast
  from f32_sub_half_ulp [OF fy fP fb]
  have eb: "\<bar>valof ?b - (valof (y p1) - valof ?P)\<bar> \<le> half_ulp ?b" .
  from f32_add_half_ulp [OF fP fb fr]
  have er: "\<bar>valof ?r - (valof ?P + valof ?b)\<bar> \<le> half_ulp ?r" .
  note bs = eb [unfolded abs_le_iff] er [unfolded abs_le_iff]
  have "\<bar>valof ?r - valof (y p1)\<bar> \<le> half_ulp ?b + half_ulp ?r"
    by (rule abs_leI) (use bs in linarith)+
  with fr fy show ?thesis by (simp add: u ic)
qed

lemma unclamped_near_p2:
  assumes nv: "\<not> isVertical (create s p1 p2 mn mx)" and ov: "overflow_free p1 p2"
  shows "is_finite (unclamped (create s p1 p2 mn mx) (x p2)) \<and> is_finite (y p2)
    \<and> \<bar>valof (unclamped (create s p1 p2 mn mx) (x p2)) - valof (y p2)\<bar>
        \<le> half_ulp (f32_sub (y p2) (y p1))
          + half_ulp (slope (create s p1 p2 mn mx)) * \<bar>valof (f32_sub (x p2) (x p1))\<bar>
          + \<bar>valof (slope (create s p1 p2 mn mx))\<bar> * half_ulp (f32_sub (x p2) (x p1))
          + half_ulp (f32_mul (slope (create s p1 p2 mn mx)) (x p1))
          + half_ulp (f32_mul (slope (create s p1 p2 mn mx)) (x p2))
          + half_ulp (y_intercept (create s p1 p2 mn mx))
          + half_ulp (unclamped (create s p1 p2 mn mx) (x p2))"
proof -
  let ?c = "create s p1 p2 mn mx"
  let ?dx = "f32_sub (x p2) (x p1)" and ?dy = "f32_sub (y p2) (y p1)"
  let ?m = "f32_div ?dy ?dx"
  let ?P1 = "f32_mul ?m (x p1)" and ?P2 = "f32_mul ?m (x p2)"
  let ?b = "f32_sub (y p1) ?P1"
  let ?r = "f32_add ?P2 ?b"
  from nv have nlt: "\<not> f32_lt (f32_abs ?dx) (lit 1 1000000)" by (simp add: create_fields)
  then have sl: "slope ?c = ?m" and ic: "y_intercept ?c = ?b" by (simp_all add: create_fields)
  from nv have u: "unclamped ?c (x p2) = ?r" by (simp add: unclamped_def sl ic)
  from ov have fdx: "is_finite ?dx" and fdy: "is_finite ?dy" and fm: "is_finite ?m"
    and fP1: "is_finite ?P1" and fb: "is_finite ?b"
    and fP2: "is_finite ?P2" and fr: "is_finite ?r"
    by (simp_all add: overflow_free_def Let_def)
  from fdx have fx: "is_finite (x p2)" "is_finite (x p1)" using is_finite_sub by blast+
  from fdy have fy: "is_finite (y p2)" "is_finite (y p1)" using is_finite_sub by blast+
  from fdx nlt have nz: "valof ?dx \<noteq> 0" by (rule not_small_nonzero)
  define X1 where "X1 = valof (x p1)"
  define X2 where "X2 = valof (x p2)"
  define Y1 where "Y1 = valof (y p1)"
  define Y2 where "Y2 = valof (y p2)"
  define DX where "DX = valof ?dx"
  define DY where "DY = valof ?dy"
  define M where "M = valof ?m"
  from f32_sub_half_ulp [OF fx fdx] obtain t1 where
    t1: "DX = X2 - X1 + t1" "\<bar>t1\<bar> \<le> half_ulp ?dx"
    unfolding DX_def X1_def X2_def using abs_le_D by blast
  from f32_sub_half_ulp [OF fy fdy] obtain t2 where
    t2: "DY = Y2 - Y1 + t2" "\<bar>t2\<bar> \<le> half_ulp ?dy"
    unfolding DY_def Y1_def Y2_def using abs_le_D by blast
  from f32_div_half_ulp [OF fdy fdx nz fm] obtain t3 where
    t3: "M = DY / DX + t3" "\<bar>t3\<bar> \<le> half_ulp ?m"
    unfolding M_def DX_def DY_def using abs_le_D by blast
  from f32_mul_half_ulp [OF fm fx(2) fP1] obtain t4 where
    t4: "valof ?P1 = M * X1 + t4" "\<bar>t4\<bar> \<le> half_ulp ?P1"
    unfolding M_def X1_def using abs_le_D by blast
  from f32_sub_half_ulp [OF fy(2) fP1 fb] obtain t5 where
    t5: "valof ?b = Y1 - valof ?P1 + t5" "\<bar>t5\<bar> \<le> half_ulp ?b"
    unfolding Y1_def using abs_le_D by blast
  from f32_mul_half_ulp [OF fm fx(1) fP2] obtain t6 where
    t6: "valof ?P2 = M * X2 + t6" "\<bar>t6\<bar> \<le> half_ulp ?P2"
    unfolding M_def X2_def using abs_le_D by blast
  from f32_add_half_ulp [OF fP2 fb fr] obtain t7 where
    t7: "valof ?r = valof ?P2 + valof ?b + t7" "\<bar>t7\<bar> \<le> half_ulp ?r"
    using abs_le_D by blast
  have dx0: "DX \<noteq> 0" using nz by (simp add: DX_def)
  have mdx: "M * DX = DY + t3 * DX" using dx0 by (simp add: t3(1) algebra_simps)
  have "X2 - X1 = DX - t1" using t1(1) by simp
  then have "M * (X2 - X1) = M * DX - M * t1" by (simp only: right_diff_distrib)
  also have "\<dots> = DY + t3 * DX - M * t1" by (simp only: mdx)
  also have "\<dots> = Y2 - Y1 + t2 + t3 * DX - M * t1" by (simp only: t2(1))
  finally have line: "M * (X2 - X1) = Y2 - Y1 + t2 + t3 * DX - M * t1" .
  have "valof ?r - Y2 = M * (X2 - X1) - (Y2 - Y1) - t4 + t6 + t5 + t7"
    by (simp add: t7(1) t6(1) t5(1) t4(1) algebra_simps)
  then have key: "valof ?r - Y2 = t2 + t3 * DX - M * t1 - t4 + t6 + t5 + t7"
    by (simp only: line)
  have p1: "\<bar>t3 * DX\<bar> \<le> half_ulp ?m * \<bar>DX\<bar>"
    using t3(2) by (simp add: abs_mult mult_right_mono)
  have p2: "\<bar>M * t1\<bar> \<le> \<bar>M\<bar> * half_ulp ?dx"
    using t1(2) by (simp add: abs_mult mult_left_mono)
  note bs = p1 [unfolded abs_le_iff] p2 [unfolded abs_le_iff] t2(2) [unfolded abs_le_iff]
    t4(2) [unfolded abs_le_iff] t5(2) [unfolded abs_le_iff] t6(2) [unfolded abs_le_iff]
    t7(2) [unfolded abs_le_iff]
  have "\<bar>valof ?r - Y2\<bar> \<le> half_ulp ?dy + half_ulp ?m * \<bar>DX\<bar> + \<bar>M\<bar> * half_ulp ?dx
      + half_ulp ?P1 + half_ulp ?P2 + half_ulp ?b + half_ulp ?r"
    unfolding key by (rule abs_leI) (use bs in linarith)+
  with fr fy(1) show ?thesis by (simp add: u sl ic Y2_def DX_def M_def)
qed

text \<open>Without rounding the line passes through its two points.\<close>

lemma exact_through_points:
  assumes nv: "\<not> isVertical (create s p1 p2 mn mx)"
    and ex: "rounding_free p1 p2"
    and b1: "f32_le mn (y p1)" "f32_le (y p1) mx"
    and b2: "f32_le mn (y p2)" "f32_le (y p2) mx"
  shows "f32_eq (evaluate (create s p1 p2 mn mx) (x p1)) (y p1)
       \<and> f32_eq (evaluate (create s p1 p2 mn mx) (x p2)) (y p2)"
proof -
  let ?c = "create s p1 p2 mn mx"
  let ?dx = "f32_sub (x p2) (x p1)" and ?dy = "f32_sub (y p2) (y p1)"
  let ?m = "f32_div ?dy ?dx"
  let ?b = "f32_sub (y p1) (f32_mul ?m (x p1))"
  from nv have nlt: "\<not> f32_lt (f32_abs ?dx) (lit 1 1000000)"
    by (simp add: create_fields)
  then have sl: "slope ?c = ?m" and ic: "y_intercept ?c = ?b"
    by (simp_all add: create_fields)
  from ex have e1: "exact_sub (x p2) (x p1)" and e2: "exact_sub (y p2) (y p1)"
    and e3: "exact_div ?dy ?dx" and e4: "exact_mul ?m (x p1)"
    and e5: "exact_sub (y p1) (f32_mul ?m (x p1))"
    and e6: "exact_add (f32_mul ?m (x p1)) ?b"
    and e7: "exact_mul ?m (x p2)" and e8: "exact_add (f32_mul ?m (x p2)) ?b"
    by (simp_all add: rounding_free_def Let_def)
  from e1 have fdx: "is_finite ?dx" and vdx: "valof ?dx = valof (x p2) - valof (x p1)"
    by (simp_all add: exact_sub_def)
  from e2 have fy: "is_finite (y p1)" "is_finite (y p2)"
    and vdy: "valof ?dy = valof (y p2) - valof (y p1)"
    using is_finite_sub [of "y p2" "y p1"] by (simp_all add: exact_sub_def)
  from fdx nlt have nz: "valof ?dx \<noteq> 0" by (rule not_small_nonzero)
  from e3 have vm: "valof ?m = valof ?dy / valof ?dx" by (simp add: exact_div_def)
  from e4 have v4: "valof (f32_mul ?m (x p1)) = valof ?m * valof (x p1)"
    by (simp add: exact_mul_def)
  from e5 have vb: "valof ?b = valof (y p1) - valof (f32_mul ?m (x p1))"
    by (simp add: exact_sub_def)
  from e6 have f6: "is_finite (f32_add (f32_mul ?m (x p1)) ?b)"
    and v6: "valof (f32_add (f32_mul ?m (x p1)) ?b) = valof (f32_mul ?m (x p1)) + valof ?b"
    by (simp_all add: exact_add_def)
  from e7 have v7: "valof (f32_mul ?m (x p2)) = valof ?m * valof (x p2)"
    by (simp add: exact_mul_def)
  from e8 have f8: "is_finite (f32_add (f32_mul ?m (x p2)) ?b)"
    and v8: "valof (f32_add (f32_mul ?m (x p2)) ?b) = valof (f32_mul ?m (x p2)) + valof ?b"
    by (simp_all add: exact_add_def)
  have r1: "valof (f32_add (f32_mul ?m (x p1)) ?b) = valof (y p1)"
    by (simp add: v6 vb)
  have "valof (f32_add (f32_mul ?m (x p2)) ?b)
          = valof (y p1) + valof ?m * (valof (x p2) - valof (x p1))"
    by (simp add: v8 vb v7 v4 algebra_simps)
  also have "\<dots> = valof (y p1) + valof ?dy"
    using nz by (simp add: vm vdx)
  also have "\<dots> = valof (y p2)" by (simp add: vdy)
  finally have r2: "valof (f32_add (f32_mul ?m (x p2)) ?b) = valof (y p2)" .
  have u1: "unclamped ?c (x p1) = f32_add (f32_mul ?m (x p1)) ?b"
    and u2: "unclamped ?c (x p2) = f32_add (f32_mul ?m (x p2)) ?b"
    using nv by (simp_all add: unclamped_def sl ic)
  have mm: "min_output ?c = mn" "max_output ?c = mx" by (simp_all add: create_fields)
  have "f32_eq (evaluate ?c (x p1)) (y p1)"
    using evaluate_in_range [OF f6 fy(1) r1 u1] b1 by (simp add: mm)
  moreover have "f32_eq (evaluate ?c (x p2)) (y p2)"
    using evaluate_in_range [OF f8 fy(2) r2 u2] b2 by (simp add: mm)
  ultimately show ?thesis by simp
qed

text \<open>The states and results are made of binary32 values.\<close>

lemma create_valid:
  assumes "valid32 (x p1)" and "valid32 mn" and "valid32 mx"
  shows "valid_state (create s p1 p2 mn mx)"
  using assms by (simp add: valid_state_def create_fields valid32_lit valid32_div valid32_sub)

lemma evaluate_valid: "valid_state s \<Longrightarrow> valid32 (evaluate s v)"
  by (simp add: valid_state_def evaluate_unclamped unclamped_def valid32_add)

section \<open>The claims\<close>

subsection \<open>C1: clamping\<close>

text \<open>
  C1, as amended. For every state with \<open>min_output \<le> max_output\<close> and every input, the
  value returned by \<^verbatim>\<open>evaluate\<close> lies between \<open>min_output\<close> and \<open>max_output\<close> exactly
  when the value before the output limits is not a NaN; when it is a NaN,
  \<^verbatim>\<open>evaluate\<close> returns that NaN.
\<close>

theorem evaluate_within_bounds:
  assumes "f32_le (min_output s) (max_output s)"
  shows "((f32_le (min_output s) (evaluate s v) \<and> f32_le (evaluate s v) (max_output s))
          = (\<not> is_nan (unclamped s v)))
       \<and> (is_nan (unclamped s v) \<longrightarrow> evaluate s v = unclamped s v)"
proof (cases "is_nan (unclamped s v)")
  case True
  then have u: "unclamped s v = NaN" by (cases "unclamped s v") simp_all
  then have e: "evaluate s v = NaN" by (simp add: evaluate_unclamped f32_lt_nan_right)
  then have "\<not> f32_le (min_output s) (evaluate s v)"
    using f32_le_not_nan [of "min_output s" NaN] by auto
  with True u e show ?thesis by simp
next
  case nn: False
  let ?r = "unclamped s v"
  from assms have nb: "\<not> is_nan (min_output s)" "\<not> is_nan (max_output s)"
    using f32_le_not_nan by blast+
  have "f32_le (min_output s) (evaluate s v) \<and> f32_le (evaluate s v) (max_output s)"
  proof (cases "f32_lt ?r (min_output s)")
    case True
    then have "evaluate s v = min_output s" by (simp add: evaluate_unclamped)
    with assms nb show ?thesis by (simp add: f32_le_refl)
  next
    case lo: False
    show ?thesis
    proof (cases "f32_lt (max_output s) ?r")
      case True
      with lo have "evaluate s v = max_output s" by (simp add: evaluate_unclamped)
      with assms nb show ?thesis by (simp add: f32_le_refl)
    next
      case False
      with lo have "evaluate s v = ?r" by (simp add: evaluate_unclamped)
      with lo False nb nn show ?thesis by (simp add: f32_not_lt_le)
    qed
  qed
  with nn show ?thesis by simp
qed

text \<open>
  The theorem at the 4-20 mA example of the README, evaluated at 3 mA, where the value
  before the limits is not a NaN and the result lies between -40 and 85; and at
  \<^verbatim>\<open>create({0, -3e38f}, {1, 3e38f}, 0, 1)\<close>, evaluated at 0, where it is a NaN and is
  returned.
\<close>

theorem evaluate_within_bounds_witness:
  "f32_le (min_output sensor_scale) (max_output sensor_scale)
   \<and> \<not> is_nan (unclamped sensor_scale (lit 3 1))
   \<and> f32_le (min_output sensor_scale) (evaluate sensor_scale (lit 3 1))
   \<and> f32_le (evaluate sensor_scale (lit 3 1)) (max_output sensor_scale)
   \<and> f32_le (min_output overflow_line) (max_output overflow_line)
   \<and> is_nan (unclamped overflow_line (lit 0 1))
   \<and> evaluate overflow_line (lit 0 1) = unclamped overflow_line (lit 0 1)"
proof -
  have a: "f32_le (min_output sensor_scale) (max_output sensor_scale)"
    by (simp add: model_eval f32_eval)
  have b: "\<not> is_nan (unclamped sensor_scale (lit 3 1))"
    by (simp add: model_eval f32_eval)
  have c: "f32_le (min_output overflow_line) (max_output overflow_line)"
    by (simp add: model_eval f32_eval)
  have d: "is_nan (unclamped overflow_line (lit 0 1))"
    by (simp add: model_eval f32_eval)
  from evaluate_within_bounds [OF a, of "lit 3 1"] b
  have "f32_le (min_output sensor_scale) (evaluate sensor_scale (lit 3 1))
      \<and> f32_le (evaluate sensor_scale (lit 3 1)) (max_output sensor_scale)"
    by blast
  moreover from evaluate_within_bounds [OF c, of "lit 0 1"] d
  have "evaluate overflow_line (lit 0 1) = unclamped overflow_line (lit 0 1)"
    by blast
  ultimately show ?thesis using a b c d by blast
qed

text \<open>
  C1 as stated fails. After \<^verbatim>\<open>create({0, -3e38f}, {1, 3e38f}, 0, 1)\<close> the difference
  \<open>dy\<close> overflows to infinity, the slope is infinite, the intercept
  \<open>-3e38f - infinity * 0\<close> is a NaN, and \<^verbatim>\<open>evaluate(0)\<close> returns that NaN, which both
  comparisons of the limits let through: \<open>0 \<le> 1\<close>, but the result is not within \<open>[0, 1]\<close>.
\<close>

theorem evaluate_nan_counterexample:
  "f32_le (lit 0 1) (lit 1 1)
   \<and> evaluate overflow_line (lit 0 1) = NaN
   \<and> \<not> (f32_le (lit 0 1)
          (evaluate overflow_line (lit 0 1))
        \<and> f32_le
          (evaluate overflow_line (lit 0 1))
          (lit 1 1))"
  by (simp add: model_eval f32_eval)

subsection \<open>C2: slope, intercept and the unclamped line\<close>

text \<open>
  C2. When \<open>|p2.x - p1.x| \<ge> 1e-6f\<close>, \<^verbatim>\<open>create\<close> stores the slope
  \<open>(p2.y - p1.y) / (p2.x - p1.x)\<close> and the intercept \<open>p1.y - slope * p1.x\<close>, and for every
  input whose value before the output limits lies within \<open>[minOut, maxOut]\<close>,
  \<^verbatim>\<open>evaluate\<close> returns \<open>slope * v + intercept\<close>.
\<close>

theorem create_slope_intercept:
  assumes "f32_le (lit 1 1000000) (f32_abs (f32_sub (x p2) (x p1)))"
  shows "slope (create s p1 p2 mn mx) = f32_div (f32_sub (y p2) (y p1)) (f32_sub (x p2) (x p1))
    \<and> y_intercept (create s p1 p2 mn mx) =
        f32_sub (y p1) (f32_mul (slope (create s p1 p2 mn mx)) (x p1))
    \<and> (\<forall>v. f32_le mn (unclamped (create s p1 p2 mn mx) v)
           \<and> f32_le (unclamped (create s p1 p2 mn mx) v) mx
         \<longrightarrow> evaluate (create s p1 p2 mn mx) v =
               f32_add (f32_mul (slope (create s p1 p2 mn mx)) v)
                 (y_intercept (create s p1 p2 mn mx)))"
proof -
  from assms have nv: "\<not> f32_lt (f32_abs (f32_sub (x p2) (x p1))) (lit 1 1000000)"
    by (rule f32_le_not_lt)
  have "evaluate (create s p1 p2 mn mx) v =
          f32_add (f32_mul (slope (create s p1 p2 mn mx)) v) (y_intercept (create s p1 p2 mn mx))"
    if "f32_le mn (unclamped (create s p1 p2 mn mx) v)"
      and "f32_le (unclamped (create s p1 p2 mn mx) v) mx" for v
  proof -
    from that have "\<not> f32_lt (unclamped (create s p1 p2 mn mx) v) mn"
      and "\<not> f32_lt mx (unclamped (create s p1 p2 mn mx) v)"
      by (simp_all add: f32_le_not_lt)
    then have "evaluate (create s p1 p2 mn mx) v = unclamped (create s p1 p2 mn mx) v"
      by (simp add: evaluate_unclamped create_fields)
    with nv show ?thesis by (simp add: unclamped_def create_fields)
  qed
  with nv show ?thesis by (simp add: create_fields)
qed

text \<open>
  The theorem at the usage example of the README, \<^verbatim>\<open>create({1, 2}, {3, 4}, -10, 10)\<close>:
  slope 1, intercept 1, and \<^verbatim>\<open>evaluate(2.5)\<close> is 3.5.
\<close>

theorem create_slope_intercept_witness:
  "f32_le (lit 1 1000000) (f32_abs (f32_sub (lit 3 1) (lit 1 1)))
   \<and> slope usage_line = lit 1 1
   \<and> y_intercept usage_line = lit 1 1
   \<and> f32_le (lit (- 10) 1) (unclamped usage_line (lit 25 10))
   \<and> f32_le (unclamped usage_line (lit 25 10)) (lit 10 1)
   \<and> evaluate usage_line (lit 25 10) = lit 35 10"
proof -
  let ?p1 = "\<lparr>x = lit 1 1, y = lit 2 1\<rparr>" and ?p2 = "\<lparr>x = lit 3 1, y = lit 4 1\<rparr>"
  let ?s = "create lineEq_init ?p1 ?p2 (lit (- 10) 1) (lit 10 1)"
  have h: "f32_le (lit 1 1000000) (f32_abs (f32_sub (x ?p2) (x ?p1)))"
    by (simp add: f32_eval)
  have lo: "f32_le (lit (- 10) 1) (unclamped ?s (lit 25 10))"
    by (simp add: model_eval f32_eval)
  have hi: "f32_le (unclamped ?s (lit 25 10)) (lit 10 1)"
    by (simp add: model_eval f32_eval)
  from create_slope_intercept [OF h, of lineEq_init "lit (- 10) 1" "lit 10 1"] lo hi
  have "evaluate ?s (lit 25 10) = f32_add (f32_mul (slope ?s) (lit 25 10)) (y_intercept ?s)"
    by blast
  moreover have "f32_add (f32_mul (slope ?s) (lit 25 10)) (y_intercept ?s) = lit 35 10"
    by (simp add: model_eval f32_eval)
  moreover have "slope ?s = lit 1 1" and "y_intercept ?s = lit 1 1"
    by (simp_all add: model_eval f32_eval)
  ultimately show ?thesis using h lo hi by simp
qed

subsection \<open>C3: the vertical test\<close>

text \<open>
  C3. \<^verbatim>\<open>create\<close> sets the vertical flag exactly when \<open>|p2.x - p1.x| < 1e-6f\<close>, the
  difference being the binary32 one and the comparison strict; it then sets the slope to 0
  and stores \<open>p1.x\<close> as the intercept. A difference equal to \<open>1e-6f\<close> is not vertical.
\<close>

theorem create_vertical_iff:
  "isVertical (create s p1 p2 mn mx) = f32_lt (f32_abs (f32_sub (x p2) (x p1))) (lit 1 1000000)
   \<and> (f32_lt (f32_abs (f32_sub (x p2) (x p1))) (lit 1 1000000) \<longrightarrow>
        slope (create s p1 p2 mn mx) = lit 0 1 \<and> y_intercept (create s p1 p2 mn mx) = x p1)
   \<and> (f32_eq (f32_abs (f32_sub (x p2) (x p1))) (lit 1 1000000) \<longrightarrow>
        \<not> isVertical (create s p1 p2 mn mx))"
  using f32_eq_not_lt by (auto simp: create_fields)

text \<open>
  The theorem at \<^verbatim>\<open>create({5, 1}, {5, 9}, 0, 100)\<close>, which is vertical, and at
  \<^verbatim>\<open>create({0, 0}, {1e-6f, 1}, 0, 1)\<close>, whose difference is \<open>1e-6f\<close> and which is not.
\<close>

theorem create_vertical_iff_witness:
  "f32_lt (f32_abs (f32_sub (lit 5 1) (lit 5 1))) (lit 1 1000000)
   \<and> isVertical vertical_line
   \<and> slope vertical_line = lit 0 1
   \<and> y_intercept vertical_line = lit 5 1
   \<and> f32_eq (f32_abs (f32_sub (lit 1 1000000) (lit 0 1))) (lit 1 1000000)
   \<and> \<not> isVertical epsilon_line"
proof -
  let ?p1 = "\<lparr>x = lit 5 1, y = lit 1 1\<rparr>" and ?p2 = "\<lparr>x = lit 5 1, y = lit 9 1\<rparr>"
  let ?q1 = "\<lparr>x = lit 0 1, y = lit 0 1\<rparr>" and ?q2 = "\<lparr>x = lit 1 1000000, y = lit 1 1\<rparr>"
  have a: "f32_lt (f32_abs (f32_sub (x ?p2) (x ?p1))) (lit 1 1000000)"
    by (simp add: f32_eval)
  have b: "f32_eq (f32_abs (f32_sub (x ?q2) (x ?q1))) (lit 1 1000000)"
    by (simp add: f32_eval)
  from a create_vertical_iff [of lineEq_init ?p1 ?p2 "lit 0 1" "lit 100 1"]
  have "isVertical (create lineEq_init ?p1 ?p2 (lit 0 1) (lit 100 1))"
    and "slope (create lineEq_init ?p1 ?p2 (lit 0 1) (lit 100 1)) = lit 0 1"
    and "y_intercept (create lineEq_init ?p1 ?p2 (lit 0 1) (lit 100 1)) = lit 5 1"
    by simp_all
  moreover from b create_vertical_iff [of lineEq_init ?q1 ?q2 "lit 0 1" "lit 1 1"]
  have "\<not> isVertical (create lineEq_init ?q1 ?q2 (lit 0 1) (lit 1 1))"
    by blast
  ultimately show ?thesis using a b by simp
qed

subsection \<open>C4: a vertical line evaluates to a constant\<close>

text \<open>
  C4. After a \<^verbatim>\<open>create\<close> that set the vertical flag, \<^verbatim>\<open>evaluate\<close> returns, for every
  input, \<open>p1.x\<close> with the output limits applied: the result does not depend on the input.
  Two points with the same finite x-coordinate set the flag.
\<close>

theorem evaluate_vertical_constant:
  "(isVertical (create s p1 p2 mn mx) \<longrightarrow>
      evaluate (create s p1 p2 mn mx) v =
        (if f32_lt (x p1) mn then mn else if f32_gt (x p1) mx then mx else x p1))
   \<and> (is_finite (x p1) \<and> x p2 = x p1 \<longrightarrow> isVertical (create s p1 p2 mn mx))"
proof -
  have "isVertical (create s p1 p2 mn mx)" if "is_finite (x p1)" and "x p2 = x p1"
    using that by (simp add: create_fields f32_sub_self lit_1e_6 pow2_def)
  then show ?thesis
    by (auto simp: evaluate_unclamped unclamped_def create_fields f32_gt_def)
qed

text \<open>
  The theorem at \<^verbatim>\<open>create({5, 1}, {5, 9}, 0, 100)\<close>: \<^verbatim>\<open>evaluate(0)\<close> and
  \<^verbatim>\<open>evaluate(999)\<close> are both 5.
\<close>

theorem evaluate_vertical_constant_witness:
  "is_finite (lit 5 1)
   \<and> isVertical vertical_line
   \<and> evaluate vertical_line (lit 0 1) = lit 5 1
   \<and> evaluate vertical_line (lit 999 1) = lit 5 1"
proof -
  let ?p1 = "\<lparr>x = lit 5 1, y = lit 1 1\<rparr>" and ?p2 = "\<lparr>x = lit 5 1, y = lit 9 1\<rparr>"
  let ?s = "create lineEq_init ?p1 ?p2 (lit 0 1) (lit 100 1)"
  have f: "is_finite (x ?p1)" and e: "x ?p2 = x ?p1"
    by (simp_all add: f32_eval)
  from f e evaluate_vertical_constant [of lineEq_init ?p1 ?p2 "lit 0 1" "lit 100 1"]
  have iv: "isVertical ?s" by blast
  have c: "(if f32_lt (x ?p1) (lit 0 1) then lit 0 1
            else if f32_gt (x ?p1) (lit 100 1) then lit 100 1 else x ?p1) = lit 5 1"
    by (simp add: f32_eval)
  from iv evaluate_vertical_constant [of lineEq_init ?p1 ?p2 "lit 0 1" "lit 100 1" "lit 0 1"] c
  have "evaluate ?s (lit 0 1) = lit 5 1" by simp
  moreover
  from iv evaluate_vertical_constant [of lineEq_init ?p1 ?p2 "lit 0 1" "lit 100 1" "lit 999 1"] c
  have "evaluate ?s (lit 999 1) = lit 5 1" by simp
  ultimately show ?thesis using f iv by simp
qed

subsection \<open>C5: the line passes through its two points\<close>

text \<open>
  C5, as amended. For a \<^verbatim>\<open>create\<close> that did not set the vertical flag, with \<open>p1.y\<close> and
  \<open>p2.y\<close> within \<open>[minOut, maxOut]\<close> and every intermediate result of \<^verbatim>\<open>create\<close> and of
  the two evaluations finite (no overflow), write \<open>h(r)\<close> for half a unit in the last
  place of a result \<open>r\<close>, and \<open>dx\<close>, \<open>dy\<close>, \<open>slope\<close>, \<open>intercept\<close> for the binary32 values
  that \<^verbatim>\<open>create\<close> computes. Then
  \<^item> \<^verbatim>\<open>evaluate(p1.x)\<close> is finite and differs from \<open>p1.y\<close> by at most
    \<open>h(intercept) + h(slope * p1.x + intercept)\<close>;
  \<^item> \<^verbatim>\<open>evaluate(p2.x)\<close> is finite and differs from \<open>p2.y\<close> by at most
    \<open>h(dy) + h(slope) * |dx| + |slope| * h(dx) + h(slope * p1.x) + h(slope * p2.x)
      + h(intercept) + h(slope * p2.x + intercept)\<close>:
    the error of the division counts multiplied by \<open>|dx|\<close> and the error of \<open>dx\<close>
    multiplied by \<open>|slope|\<close>;
  \<^item> if none of the operations rounds (exact arithmetic), then \<^verbatim>\<open>evaluate(p1.x)\<close>
    equals \<open>p1.y\<close> and \<^verbatim>\<open>evaluate(p2.x)\<close> equals \<open>p2.y\<close>.
\<close>

theorem evaluate_through_points:
  assumes nv: "\<not> isVertical (create s p1 p2 mn mx)"
    and ov: "overflow_free p1 p2"
    and b1: "f32_le mn (y p1)" "f32_le (y p1) mx"
    and b2: "f32_le mn (y p2)" "f32_le (y p2) mx"
  shows "is_finite (evaluate (create s p1 p2 mn mx) (x p1))
    \<and> \<bar>valof (evaluate (create s p1 p2 mn mx) (x p1)) - valof (y p1)\<bar>
        \<le> half_ulp (y_intercept (create s p1 p2 mn mx))
          + half_ulp (unclamped (create s p1 p2 mn mx) (x p1))
    \<and> is_finite (evaluate (create s p1 p2 mn mx) (x p2))
    \<and> \<bar>valof (evaluate (create s p1 p2 mn mx) (x p2)) - valof (y p2)\<bar>
        \<le> half_ulp (f32_sub (y p2) (y p1))
          + half_ulp (slope (create s p1 p2 mn mx)) * \<bar>valof (f32_sub (x p2) (x p1))\<bar>
          + \<bar>valof (slope (create s p1 p2 mn mx))\<bar> * half_ulp (f32_sub (x p2) (x p1))
          + half_ulp (f32_mul (slope (create s p1 p2 mn mx)) (x p1))
          + half_ulp (f32_mul (slope (create s p1 p2 mn mx)) (x p2))
          + half_ulp (y_intercept (create s p1 p2 mn mx))
          + half_ulp (unclamped (create s p1 p2 mn mx) (x p2))
    \<and> (rounding_free p1 p2 \<longrightarrow>
          f32_eq (evaluate (create s p1 p2 mn mx) (x p1)) (y p1)
          \<and> f32_eq (evaluate (create s p1 p2 mn mx) (x p2)) (y p2))"
proof -
  let ?c = "create s p1 p2 mn mx"
  have mm: "min_output ?c = mn" "max_output ?c = mx" by (simp_all add: create_fields)
  from unclamped_near_p1 [OF nv ov]
  have f1: "is_finite (unclamped ?c (x p1))" and g1: "is_finite (y p1)"
    and n1: "\<bar>valof (unclamped ?c (x p1)) - valof (y p1)\<bar>
        \<le> half_ulp (y_intercept ?c) + half_ulp (unclamped ?c (x p1))"
    by simp_all
  from unclamped_near_p2 [OF nv ov]
  have f2: "is_finite (unclamped ?c (x p2))" and g2: "is_finite (y p2)"
    and n2: "\<bar>valof (unclamped ?c (x p2)) - valof (y p2)\<bar>
        \<le> half_ulp (f32_sub (y p2) (y p1))
          + half_ulp (slope ?c) * \<bar>valof (f32_sub (x p2) (x p1))\<bar>
          + \<bar>valof (slope ?c)\<bar> * half_ulp (f32_sub (x p2) (x p1))
          + half_ulp (f32_mul (slope ?c) (x p1))
          + half_ulp (f32_mul (slope ?c) (x p2))
          + half_ulp (y_intercept ?c)
          + half_ulp (unclamped ?c (x p2))"
    by simp_all
  from evaluate_closer [OF f1 g1 refl] b1
  have c1: "is_finite (evaluate ?c (x p1))"
    "\<bar>valof (evaluate ?c (x p1)) - valof (y p1)\<bar> \<le> \<bar>valof (unclamped ?c (x p1)) - valof (y p1)\<bar>"
    by (simp_all add: mm)
  from evaluate_closer [OF f2 g2 refl] b2
  have c2: "is_finite (evaluate ?c (x p2))"
    "\<bar>valof (evaluate ?c (x p2)) - valof (y p2)\<bar> \<le> \<bar>valof (unclamped ?c (x p2)) - valof (y p2)\<bar>"
    by (simp_all add: mm)
  have e: "f32_eq (evaluate ?c (x p1)) (y p1) \<and> f32_eq (evaluate ?c (x p2)) (y p2)"
    if "rounding_free p1 p2"
    using exact_through_points [OF nv that b1 b2] .
  from c1(2) n1 have t1: "\<bar>valof (evaluate ?c (x p1)) - valof (y p1)\<bar>
        \<le> half_ulp (y_intercept ?c) + half_ulp (unclamped ?c (x p1))"
    by (rule order_trans)
  from c2(2) n2 have t2: "\<bar>valof (evaluate ?c (x p2)) - valof (y p2)\<bar>
        \<le> half_ulp (f32_sub (y p2) (y p1))
          + half_ulp (slope ?c) * \<bar>valof (f32_sub (x p2) (x p1))\<bar>
          + \<bar>valof (slope ?c)\<bar> * half_ulp (f32_sub (x p2) (x p1))
          + half_ulp (f32_mul (slope ?c) (x p1))
          + half_ulp (f32_mul (slope ?c) (x p2))
          + half_ulp (y_intercept ?c)
          + half_ulp (unclamped ?c (x p2))"
    by (rule order_trans)
  from c1(1) t1 c2(1) t2 e show ?thesis by blast
qed

text \<open>
  The theorem at the 4-20 mA example, where nothing overflows and nothing rounds:
  \<^verbatim>\<open>evaluate(4)\<close> is -40 and \<^verbatim>\<open>evaluate(20)\<close> is 85.
\<close>

theorem evaluate_through_points_witness:
  "\<not> isVertical sensor_scale
   \<and> overflow_free \<lparr>x = lit 4 1, y = lit (- 40) 1\<rparr> \<lparr>x = lit 20 1, y = lit 85 1\<rparr>
   \<and> rounding_free \<lparr>x = lit 4 1, y = lit (- 40) 1\<rparr> \<lparr>x = lit 20 1, y = lit 85 1\<rparr>
   \<and> f32_le (lit (- 40) 1) (lit (- 40) 1) \<and> f32_le (lit (- 40) 1) (lit 85 1)
   \<and> f32_le (lit (- 40) 1) (lit 85 1) \<and> f32_le (lit 85 1) (lit 85 1)
   \<and> is_finite (evaluate sensor_scale (lit 4 1))
   \<and> f32_eq (evaluate sensor_scale (lit 4 1)) (lit (- 40) 1)
   \<and> f32_eq (evaluate sensor_scale (lit 20 1)) (lit 85 1)"
proof -
  let ?p1 = "\<lparr>x = lit 4 1, y = lit (- 40) 1\<rparr>" and ?p2 = "\<lparr>x = lit 20 1, y = lit 85 1\<rparr>"
  have nv: "\<not> isVertical (create lineEq_init ?p1 ?p2 (lit (- 40) 1) (lit 85 1))"
    by (simp add: model_eval f32_eval)
  have ov: "overflow_free ?p1 ?p2"
    by (simp add: overflow_free_def f32_eval)
  have ex: "rounding_free ?p1 ?p2"
    by (simp add: rounding_free_def exact_add_def exact_sub_def exact_mul_def exact_div_def
        f32_eval)
  have b: "f32_le (lit (- 40) 1) (y ?p1)" "f32_le (y ?p1) (lit 85 1)"
    "f32_le (lit (- 40) 1) (y ?p2)" "f32_le (y ?p2) (lit 85 1)"
    by (simp_all add: f32_eval)
  from evaluate_through_points [OF nv ov b] ex
  have "is_finite (evaluate (create lineEq_init ?p1 ?p2 (lit (- 40) 1) (lit 85 1)) (x ?p1))"
    and "f32_eq (evaluate (create lineEq_init ?p1 ?p2 (lit (- 40) 1) (lit 85 1)) (x ?p1)) (y ?p1)"
    and "f32_eq (evaluate (create lineEq_init ?p1 ?p2 (lit (- 40) 1) (lit 85 1)) (x ?p2)) (y ?p2)"
    by blast+
  with nv ov ex b show ?thesis by simp
qed

text \<open>
  C5 as stated fails. After \<^verbatim>\<open>create({0, -3e38f}, {1, 3e38f}, -3e38f, 3e38f)\<close>, which
  is not vertical and has both \<open>p1.y\<close> and \<open>p2.y\<close> within the output limits, \<open>dy\<close>
  overflows, the intercept is a NaN and \<^verbatim>\<open>evaluate(0)\<close> returns a NaN, which equals
  nothing. And without any overflow, after
  \<^verbatim>\<open>create({1, 1}, {0, 33554432}, -67108864, 67108864)\<close> the difference
  \<open>33554432 - 1\<close> rounds to \<open>33554432\<close>, the slope is \<open>-33554432\<close>, the intercept
  \<open>1 + 33554432\<close> rounds to \<open>33554432\<close>, and \<^verbatim>\<open>evaluate(1)\<close> returns 0 where
  \<open>p1.y\<close> is 1: the deviation is all of \<open>p1.y\<close>.
\<close>

theorem evaluate_through_points_counterexample:
  "\<not> isVertical overflow_line_wide
   \<and> f32_le (lit (- 3 * 10 ^ 38) 1) (lit (- 3 * 10 ^ 38) 1)
   \<and> f32_le (lit (- 3 * 10 ^ 38) 1) (lit (3 * 10 ^ 38) 1)
   \<and> f32_le (lit (3 * 10 ^ 38) 1) (lit (3 * 10 ^ 38) 1)
   \<and> evaluate overflow_line_wide (lit 0 1) = NaN
   \<and> \<not> f32_eq (evaluate overflow_line_wide (lit 0 1)) (lit (- 3 * 10 ^ 38) 1)
   \<and> \<not> isVertical cancelling_line
   \<and> f32_le (lit (- 67108864) 1) (lit 1 1) \<and> f32_le (lit 1 1) (lit 67108864 1)
   \<and> f32_le (lit (- 67108864) 1) (lit 33554432 1) \<and> f32_le (lit 33554432 1) (lit 67108864 1)
   \<and> overflow_free \<lparr>x = lit 1 1, y = lit 1 1\<rparr> \<lparr>x = lit 0 1, y = lit 33554432 1\<rparr>
   \<and> evaluate cancelling_line (lit 1 1) = lit 0 1
   \<and> valof (evaluate cancelling_line (lit 1 1)) = 0
   \<and> valof (lit 1 1) = 1
   \<and> \<not> f32_eq (evaluate cancelling_line (lit 1 1)) (lit 1 1)"
  by (simp add: model_eval overflow_free_def f32_eval)

text \<open>
  The two scaled terms of the bound at \<open>p2.x\<close> are needed: after
  \<^verbatim>\<open>create({7.1f, 506}, {0.8f, 27.8f}, -1000, 1000)\<close>, where nothing overflows,
  \<^verbatim>\<open>evaluate(0.8f)\<close> differs from \<open>27.8f\<close> by more than the plain sum of half a unit in
  the last place of each of the seven results.
\<close>

lemma steep_line_error:
  "\<not> isVertical steep_line
   \<and> overflow_free \<lparr>x = lit 71 10, y = lit 506 1\<rparr> \<lparr>x = lit 8 10, y = lit 278 10\<rparr>
   \<and> half_ulp (f32_sub (lit 278 10) (lit 506 1)) + half_ulp (slope steep_line)
       + half_ulp (f32_sub (lit 8 10) (lit 71 10))
       + half_ulp (f32_mul (slope steep_line) (lit 71 10))
       + half_ulp (f32_mul (slope steep_line) (lit 8 10))
       + half_ulp (y_intercept steep_line) + half_ulp (unclamped steep_line (lit 8 10))
     < \<bar>valof (evaluate steep_line (lit 8 10)) - valof (lit 278 10)\<bar>"
  by (simp add: model_eval overflow_free_def f32_eval)

subsection \<open>C6: the order of the two limits\<close>

text \<open>
  C6. For every state, inverted limits included, and every input, \<^verbatim>\<open>evaluate\<close> returns
  \<open>min_output\<close> if the unclamped value is below it; otherwise \<open>max_output\<close> if the unclamped
  value is above it; otherwise the unclamped value. The second test is made on the
  unclamped value, and only when the first failed.
\<close>

theorem evaluate_clamp_order:
  "evaluate s v =
     (if f32_lt (unclamped s v) (min_output s) then min_output s
      else if f32_gt (unclamped s v) (max_output s) then max_output s
      else unclamped s v)"
  by (simp add: evaluate_def unclamped_def Let_def)

text \<open>
  With inverted limits the result is the limit whose test succeeds: after
  \<^verbatim>\<open>create({0, 0}, {1, 1}, 10, 0)\<close>, \<^verbatim>\<open>evaluate(5)\<close> is 10, since \<open>5 < 10\<close>, and
  \<^verbatim>\<open>evaluate(20)\<close> is 0, since \<open>20\<close> is not below 10 and is above 0.
\<close>

lemma evaluate_inverted_limits:
  "evaluate inverted_line (lit 5 1) = lit 10 1
   \<and> evaluate inverted_line (lit 20 1) = lit 0 1"
  by (simp add: model_eval f32_eval)

subsection \<open>C7: create overwrites every field\<close>

text \<open>
  C7. The state after \<^verbatim>\<open>create\<close> depends on its arguments only: from any two prior
  states, the same arguments give the same state, and so the same result of
  \<^verbatim>\<open>evaluate\<close> at every input.
\<close>

theorem create_overwrites:
  "create s p1 p2 mn mx = create s' p1 p2 mn mx
   \<and> evaluate (create s p1 p2 mn mx) v = evaluate (create s' p1 p2 mn mx) v"
proof -
  have "create s p1 p2 mn mx = create s' p1 p2 mn mx"
    by (rule lineEq_t.equality) (simp_all add: create_fields)
  then show ?thesis by simp
qed

subsection \<open>C8: the default-constructed object\<close>

text \<open>
  C8. A default-constructed object has slope, intercept and both limits 0 and the vertical
  flag false, and before any \<^verbatim>\<open>create\<close>, \<^verbatim>\<open>evaluate\<close> returns 0 for every input,
  the inputs of \<^verbatim>\<open>evaluate\<close> being the finite values; in particular
  \<^verbatim>\<open>evaluate(42.0f)\<close> is 0.
\<close>

theorem evaluate_default:
  "lineEq_init = \<lparr>slope = lit 0 1, y_intercept = lit 0 1, min_output = lit 0 1,
       max_output = lit 0 1, isVertical = False\<rparr>
   \<and> (is_finite v \<longrightarrow> evaluate lineEq_init v = lit 0 1)
   \<and> evaluate lineEq_init (lit 42 1) = lit 0 1"
proof -
  have fin: "evaluate lineEq_init w = lit 0 1" if "is_finite w" for w
  proof -
    from that obtain sg where "f32_mul (Finite False 0 (- 149)) w = Finite sg 0 (- 149)"
      using f32_mul_zero_finite by blast
    then have "unclamped lineEq_init w = Finite False 0 (- 149)"
      by (simp add: unclamped_def lineEq_init_def lit_zero signed_def Let_def)
    then show ?thesis
      by (simp add: evaluate_unclamped lineEq_init_def lit_zero)
  qed
  have "is_finite (lit 42 1)" by (simp add: f32_eval)
  then have "evaluate lineEq_init (lit 42 1) = lit 0 1" by (rule fin)
  with fin show ?thesis by (simp add: lineEq_init_def)
qed

text \<open>The theorem at another finite input: \<^verbatim>\<open>evaluate(-1e30f)\<close> is 0.\<close>

theorem evaluate_default_witness:
  "is_finite (lit (- (10 ^ 30)) 1) \<and> evaluate lineEq_init (lit (- (10 ^ 30)) 1) = lit 0 1"
proof -
  have a: "is_finite (lit (- (10 ^ 30)) 1)" by (simp add: f32_eval)
  with evaluate_default [of "lit (- (10 ^ 30)) 1"] show ?thesis by blast
qed

subsection \<open>C9: the 4-20 mA example\<close>

text \<open>
  C9. After \<^verbatim>\<open>create({4, -40}, {20, 85}, -40, 85)\<close> the slope is \<open>125/16\<close> and the
  intercept \<open>-71.25\<close>; \<^verbatim>\<open>evaluate(12)\<close> is \<open>22.5\<close>; at 3 the unclamped value is
  \<open>-47.8125\<close> and \<^verbatim>\<open>evaluate(3)\<close> is \<open>-40\<close>.
\<close>

theorem scenario_4_20mA:
  "slope (create lineEq_init \<lparr>x = lit 4 1, y = lit (- 40) 1\<rparr>
        \<lparr>x = lit 20 1, y = lit 85 1\<rparr> (lit (- 40) 1) (lit 85 1)) = lit 125 16
   \<and> y_intercept (create lineEq_init \<lparr>x = lit 4 1, y = lit (- 40) 1\<rparr>
        \<lparr>x = lit 20 1, y = lit 85 1\<rparr> (lit (- 40) 1) (lit 85 1)) = lit (- 7125) 100
   \<and> evaluate (create lineEq_init \<lparr>x = lit 4 1, y = lit (- 40) 1\<rparr>
        \<lparr>x = lit 20 1, y = lit 85 1\<rparr> (lit (- 40) 1) (lit 85 1)) (lit 12 1) = lit 225 10
   \<and> unclamped (create lineEq_init \<lparr>x = lit 4 1, y = lit (- 40) 1\<rparr>
        \<lparr>x = lit 20 1, y = lit 85 1\<rparr> (lit (- 40) 1) (lit 85 1)) (lit 3 1) = lit (- 478125) 10000
   \<and> evaluate (create lineEq_init \<lparr>x = lit 4 1, y = lit (- 40) 1\<rparr>
        \<lparr>x = lit 20 1, y = lit 85 1\<rparr> (lit (- 40) 1) (lit 85 1)) (lit 3 1) = lit (- 40) 1"
  by (simp add: model_eval f32_eval)

subsection \<open>C10: a vertical state has slope 0\<close>

text \<open>
  C10. In the default-constructed state and after any sequence of \<^verbatim>\<open>create\<close> calls,
  the vertical flag implies that the slope is 0.
\<close>

theorem vertical_slope_zero:
  "isVertical (create_all lineEq_init cs) \<Longrightarrow> slope (create_all lineEq_init cs) = lit 0 1"
  using create_all_invariant [of lineEq_init cs] by (simp add: lineEq_init_def)

text \<open>
  The theorem after a non-vertical \<^verbatim>\<open>create\<close> followed by a vertical one.
\<close>

theorem vertical_slope_zero_witness:
  "isVertical (create_all lineEq_init
      [(\<lparr>x = lit 1 1, y = lit 2 1\<rparr>, \<lparr>x = lit 3 1, y = lit 4 1\<rparr>, lit (- 10) 1, lit 10 1),
       (\<lparr>x = lit 5 1, y = lit 1 1\<rparr>, \<lparr>x = lit 5 1, y = lit 9 1\<rparr>, lit 0 1, lit 100 1)])
   \<and> slope (create_all lineEq_init
      [(\<lparr>x = lit 1 1, y = lit 2 1\<rparr>, \<lparr>x = lit 3 1, y = lit 4 1\<rparr>, lit (- 10) 1, lit 10 1),
       (\<lparr>x = lit 5 1, y = lit 1 1\<rparr>, \<lparr>x = lit 5 1, y = lit 9 1\<rparr>, lit 0 1, lit 100 1)])
     = lit 0 1"
proof -
  let ?cs = "[(\<lparr>x = lit 1 1, y = lit 2 1\<rparr>, \<lparr>x = lit 3 1, y = lit 4 1\<rparr>, lit (- 10) 1, lit 10 1),
       (\<lparr>x = lit 5 1, y = lit 1 1\<rparr>, \<lparr>x = lit 5 1, y = lit 9 1\<rparr>, lit 0 1, lit 100 1)]"
  have v: "isVertical (create_all lineEq_init ?cs)"
    by (simp add: model_eval f32_eval)
  from vertical_slope_zero [OF v] v show ?thesis by simp
qed

end
